theory Spec2Isabelle
  imports Complex_Main "HOL-Library.Log_Nat"
begin

text \<open>
  A model of the watermarking pipeline of \<^verbatim>\<open>src/main.py\<close>: the geometry resolver
  (\<^verbatim>\<open>calc_anchor_pos\<close>), the resize policy (\<^verbatim>\<open>apply_resize\<close>), the two overlay renderers
  (\<^verbatim>\<open>draw_text_watermark\<close>, \<^verbatim>\<open>draw_image_watermark\<close>), the compositor
  (\<^verbatim>\<open>apply_watermark_once\<close>), the exporter (\<^verbatim>\<open>export_image\<close>), the batch loop
  (\<^verbatim>\<open>MainWindow.on_export_all\<close>) and the persistence of the configuration
  (\<^verbatim>\<open>on_save_template\<close>, \<^verbatim>\<open>on_load_template\<close>, \<^verbatim>\<open>save_last_state\<close>,
  \<^verbatim>\<open>load_last_state\<close>). The definitions come first, each under the name it has in the
  source; the properties follow, component by component.
\<close>

section \<open>Geometry resolver\<close>

text \<open>
  \<^verbatim>\<open>calc_anchor_pos\<close> of \<^verbatim>\<open>src/main.py\<close>. Python integers are unbounded, so they are
  \<open>int\<close>; \<^verbatim>\<open>//\<close> is floor division, which is \<open>div\<close> on \<open>int\<close>. The dictionary
  literal is an association list in the order of the source, and \<^verbatim>\<open>mapping.get(anchor, (0, 0))\<close>
  is a lookup with a default.
\<close>

definition anchor_mapping :: "int \<Rightarrow> int \<Rightarrow> int \<Rightarrow> int \<Rightarrow> (string \<times> (int \<times> int)) list" where
  "anchor_mapping base_w base_h mark_w mark_h =
     [(''tl'', (0, 0)),
      (''tm'', (base_w div 2 - mark_w div 2, 0)),
      (''tr'', (base_w - mark_w, 0)),
      (''ml'', (0, base_h div 2 - mark_h div 2)),
      (''center'', (base_w div 2 - mark_w div 2, base_h div 2 - mark_h div 2)),
      (''mr'', (base_w - mark_w, base_h div 2 - mark_h div 2)),
      (''bl'', (0, base_h - mark_h)),
      (''bm'', (base_w div 2 - mark_w div 2, base_h - mark_h)),
      (''br'', (base_w - mark_w, base_h - mark_h))]"

definition dict_get :: "('k \<times> 'v) list \<Rightarrow> 'k \<Rightarrow> 'v \<Rightarrow> 'v" where
  "dict_get d k dflt = (case map_of d k of None \<Rightarrow> dflt | Some v \<Rightarrow> v)"

definition calc_anchor_pos ::
  "int \<Rightarrow> int \<Rightarrow> int \<Rightarrow> int \<Rightarrow> string \<Rightarrow> int \<Rightarrow> int \<Rightarrow> int \<times> int" where
  "calc_anchor_pos base_w base_h mark_w mark_h anchor offx offy =
     (case dict_get (anchor_mapping base_w base_h mark_w mark_h) anchor (0, 0) of
        (x, y) \<Rightarrow> (x + offx, y + offy))"

text \<open>
  The grid as the specification words it: the column of an anchor tag picks the x base and
  its row the y base, the middle one being half of the free space, rounded down.
\<close>

datatype zone = Near | Middle | Far

definition anchor_zones :: "string \<Rightarrow> (zone \<times> zone) option" where
  "anchor_zones anchor =
     map_of [(''tl'', (Near, Near)), (''tm'', (Middle, Near)), (''tr'', (Far, Near)),
             (''ml'', (Near, Middle)), (''center'', (Middle, Middle)), (''mr'', (Far, Middle)),
             (''bl'', (Near, Far)), (''bm'', (Middle, Far)), (''br'', (Far, Far))] anchor"

fun spec_base :: "zone \<Rightarrow> int \<Rightarrow> int \<Rightarrow> int" where
  "spec_base Near canvas overlay = 0"
| "spec_base Middle canvas overlay = (canvas - overlay) div 2"
| "spec_base Far canvas overlay = canvas - overlay"

definition spec_resolve ::
  "int \<Rightarrow> int \<Rightarrow> int \<Rightarrow> int \<Rightarrow> string \<Rightarrow> int \<Rightarrow> int \<Rightarrow> int \<times> int" where
  "spec_resolve canvasW canvasH overlayW overlayH anchor offsetX offsetY =
     (case anchor_zones anchor of
        None \<Rightarrow> (offsetX, offsetY)
      | Some (col, row) \<Rightarrow>
          (spec_base col canvasW overlayW + offsetX, spec_base row canvasH overlayH + offsetY))"

text \<open>The middle base the code computes: each half is rounded down on its own.\<close>

fun code_base :: "zone \<Rightarrow> int \<Rightarrow> int \<Rightarrow> int" where
  "code_base Near canvas overlay = 0"
| "code_base Middle canvas overlay = canvas div 2 - overlay div 2"
| "code_base Far canvas overlay = canvas - overlay"

definition code_resolve ::
  "int \<Rightarrow> int \<Rightarrow> int \<Rightarrow> int \<Rightarrow> string \<Rightarrow> int \<Rightarrow> int \<Rightarrow> int \<times> int" where
  "code_resolve canvasW canvasH overlayW overlayH anchor offsetX offsetY =
     (case anchor_zones anchor of
        None \<Rightarrow> (offsetX, offsetY)
      | Some (col, row) \<Rightarrow>
          (code_base col canvasW overlayW + offsetX, code_base row canvasH overlayH + offsetY))"

section \<open>Python numbers\<close>

text \<open>
  Python's \<^verbatim>\<open>/\<close> on integers and its arithmetic on \<^verbatim>\<open>float\<close> work in IEEE 754 binary64
  with rounding to nearest, ties to even. A finite float is modelled by the rational number
  it denotes, and every operation computes the exact result and rounds it with
  \<open>round_double\<close>: the result is scaled so that its integer part has 53 bits (fewer below
  \<open>2 powi - 1022\<close>, where the exponent stays at \<open>- 1074\<close>), rounded to an integer, and scaled
  back. A result of magnitude \<open>2 ^ 1024\<close> or more (its binary logarithm, rounded down, is
  at least 1024) is not a finite float. The division of integers and the conversion of an
  integer raise \<^verbatim>\<open>OverflowError\<close> then. A product or a quotient of floats would be an
  infinity: every product of the program is passed on to \<^verbatim>\<open>int()\<close>, which raises
  \<^verbatim>\<open>OverflowError\<close> on an infinity, and its float quotients have the divisor
  \<^verbatim>\<open>100.0\<close> and go into such a product, so that the model raises the exception where the
  infinity would arise.
\<close>

datatype exn =
    ZeroDivisionError
  | OverflowError
  | TypeError
  | AttributeError
  | ValueError
  | FileNotFoundError
  | FileExistsError
  | IsADirectoryError
  | PermissionError
  | UnidentifiedImageError
  | OSError
  | SystemError

definition pow2 :: "int \<Rightarrow> rat" where
  "pow2 e = (if 0 \<le> e then 2 ^ nat e else 1 / 2 ^ nat (- e))"

definition ilog2 :: "rat \<Rightarrow> int" where
  "ilog2 x = (if 1 \<le> x then bitlen \<lfloor>x\<rfloor> - 1 else - bitlen (\<lceil>1 / x\<rceil> - 1))"

definition round_half_even :: "rat \<Rightarrow> int" where
  "round_half_even x =
     (let n = \<lfloor>x\<rfloor>; r = x - of_int n
      in if r < 1 / 2 then n else if 1 / 2 < r then n + 1 else if even n then n else n + 1)"

definition round_double :: "rat \<Rightarrow> rat" where
  "round_double x =
     (if x = 0 then 0
      else let e = max (ilog2 \<bar>x\<bar> - 52) (- 1074)
           in of_int (round_half_even (x / pow2 e)) * pow2 e)"

definition finite_double :: "rat \<Rightarrow> exn + rat" where
  "finite_double x =
     (let r = round_double x
      in if r \<noteq> 0 \<and> 1024 \<le> ilog2 \<bar>r\<bar> then Inl OverflowError else Inr r)"

definition float_of_int :: "int \<Rightarrow> exn + rat" where
  "float_of_int n = finite_double (of_int n)"

definition int_truediv :: "int \<Rightarrow> int \<Rightarrow> exn + rat" where
  "int_truediv a b =
     (if b = 0 then Inl ZeroDivisionError else finite_double (of_int a / of_int b))"

definition float_truediv :: "rat \<Rightarrow> rat \<Rightarrow> exn + rat" where
  "float_truediv x y = (if y = 0 then Inl ZeroDivisionError else finite_double (x / y))"

definition float_mul :: "rat \<Rightarrow> rat \<Rightarrow> exn + rat" where
  "float_mul x y = finite_double (x * y)"

definition py_int :: "rat \<Rightarrow> int" where
  "py_int x = (if 0 \<le> x then \<lfloor>x\<rfloor> else \<lceil>x\<rceil>)"

text \<open>Sequencing of computations that may raise: the first exception ends the computation.\<close>

definition bind :: "exn + 'a \<Rightarrow> ('a \<Rightarrow> exn + 'b) \<Rightarrow> exn + 'b" where
  "bind m f = (case m of Inl e \<Rightarrow> Inl e | Inr x \<Rightarrow> f x)"

text \<open>
  \<^verbatim>\<open>x * y\<close> and \<^verbatim>\<open>x / y\<close> with an integer \<^verbatim>\<open>x\<close> and a float \<^verbatim>\<open>y\<close> (or the other way
  round) convert the integer first.
\<close>

definition int_mul_float :: "int \<Rightarrow> rat \<Rightarrow> exn + rat" where
  "int_mul_float n y = bind (float_of_int n) (\<lambda>x. float_mul x y)"

definition float_mul_int :: "rat \<Rightarrow> int \<Rightarrow> exn + rat" where
  "float_mul_int x n = bind (float_of_int n) (\<lambda>y. float_mul x y)"

definition int_div_float :: "int \<Rightarrow> rat \<Rightarrow> exn + rat" where
  "int_div_float n y = bind (float_of_int n) (\<lambda>x. float_truediv x y)"

section \<open>Paths\<close>

text \<open>
  The functions of \<^verbatim>\<open>os.path\<close> the program calls, as \<^verbatim>\<open>posixpath\<close> defines them. A Python
  string is a \<open>string\<close> here, the bytes of its UTF-8 encoding: the separators \<^verbatim>\<open>/\<close> and
  \<^verbatim>\<open>.\<close> are ASCII, and no byte of a longer UTF-8 sequence is, so that splitting at them gives
  the same pieces as splitting the code points.
\<close>

definition rfind :: "char \<Rightarrow> string \<Rightarrow> int" where
  "rfind c s =
     (if c \<in> set s then int (length s) - 1 - int (length (takeWhile (\<lambda>x. x \<noteq> c) (rev s)))
      else - 1)"

definition slice_to :: "string \<Rightarrow> int \<Rightarrow> string" where
  "slice_to p i = take (nat i) p"

definition slice_from :: "string \<Rightarrow> int \<Rightarrow> string" where
  "slice_from p i = drop (nat i) p"

definition rstrip :: "char \<Rightarrow> string \<Rightarrow> string" where
  "rstrip c s = rev (dropWhile (\<lambda>x. x = c) (rev s))"

definition basename :: "string \<Rightarrow> string" where
  "basename p = slice_from p (rfind CHR ''/'' p + 1)"

definition dirname :: "string \<Rightarrow> string" where
  "dirname p =
     (let head = slice_to p (rfind CHR ''/'' p + 1)
      in if head \<noteq> [] \<and> head \<noteq> replicate (length head) CHR ''/'' then rstrip CHR ''/'' head
         else head)"

text \<open>
  \<^verbatim>\<open>genericpath._splitext\<close>: the extension starts at the last dot after the last
  separator, unless only dots stand between the separator and that dot. The loop over
  \<^verbatim>\<open>filenameIndex\<close> returns at the first character that is no dot.
\<close>

definition splitext :: "string \<Rightarrow> string \<times> string" where
  "splitext p =
     (let sepIndex = rfind CHR ''/'' p; dotIndex = rfind CHR ''.'' p
      in if dotIndex > sepIndex \<and>
            (\<exists>c \<in> set (take (nat (dotIndex - (sepIndex + 1))) (slice_from p (sepIndex + 1))).
               c \<noteq> CHR ''.'')
         then (slice_to p dotIndex, slice_from p dotIndex)
         else (p, []))"

definition isabs :: "string \<Rightarrow> bool" where
  "isabs p = (case p of [] \<Rightarrow> False | c # _ \<Rightarrow> c = CHR ''/'')"

definition join :: "string \<Rightarrow> string \<Rightarrow> string" where
  "join a b =
     (if isabs b then b
      else if a = [] \<or> last a = CHR ''/'' then a @ b
      else a @ ''/'' @ b)"

fun split_sep :: "string \<Rightarrow> string list" where
  "split_sep [] = [[]]"
| "split_sep (c # cs) =
     (if c = CHR ''/'' then [] # split_sep cs
      else (case split_sep cs of x # xs \<Rightarrow> (c # x) # xs | [] \<Rightarrow> [[c]]))"

fun join_sep :: "string list \<Rightarrow> string" where
  "join_sep [] = []"
| "join_sep [x] = x"
| "join_sep (x # y # ys) = x @ ''/'' @ join_sep (y # ys)"

text \<open>The loop of \<^verbatim>\<open>normpath\<close> over the components, \<open>new_comps\<close> being the accumulator.\<close>

fun norm_comps :: "bool \<Rightarrow> string list \<Rightarrow> string list \<Rightarrow> string list" where
  "norm_comps initial_slashes new_comps [] = new_comps"
| "norm_comps initial_slashes new_comps (cmp # comps) =
     (if cmp = [] \<or> cmp = ''.'' then norm_comps initial_slashes new_comps comps
      else if cmp \<noteq> ''..'' \<or> (\<not> initial_slashes \<and> new_comps = [])
              \<or> (new_comps \<noteq> [] \<and> last new_comps = ''..'')
           then norm_comps initial_slashes (new_comps @ [cmp]) comps
      else if new_comps \<noteq> [] then norm_comps initial_slashes (butlast new_comps) comps
      else norm_comps initial_slashes new_comps comps)"

definition normpath :: "string \<Rightarrow> string" where
  "normpath path =
     (if path = [] then ''.''
      else
        let initial_slashes =
              (if isabs path then
                 (if take 2 path = ''//'' \<and> take 3 path \<noteq> ''///'' then 2 else 1)
               else (0::nat));
            comps = norm_comps (initial_slashes \<noteq> 0) [] (split_sep path);
            path' = replicate initial_slashes CHR ''/'' @ join_sep comps
        in if path' = [] then ''.'' else path')"

definition abspath :: "string \<Rightarrow> string \<Rightarrow> string" where
  "abspath cwd path = normpath (if isabs path then path else join cwd path)"

section \<open>Data model\<close>

text \<open>
  The dataclasses of the source, with the field types they declare. \<^verbatim>\<open>ExportRule.mode\<close>,
  \<^verbatim>\<open>ExportRule.text\<close>, \<^verbatim>\<open>TextStyle.text\<close>, \<^verbatim>\<open>ImageMark.opacity\<close> and the fields
  \<^verbatim>\<open>text\<close>, \<^verbatim>\<open>image\<close> of \<^verbatim>\<open>WatermarkConfig\<close> are renamed, since field names are global
  here. \<^verbatim>\<open>rotation_deg\<close> is a finite float.
\<close>

record ExportRule =
  naming_mode :: string
  naming_text :: string
  out_format :: string
  jpeg_quality :: int
  resize_mode :: string
  resize_value :: int

record TextStyle =
  wm_text :: string
  opacity :: int
  font_path :: "string option"
  font_size :: int
  stroke :: bool
  stroke_width :: int
  stroke_color :: "int \<times> int \<times> int"
  fill_color :: "int \<times> int \<times> int"
  shadow :: bool
  shadow_offset :: "int \<times> int"

record ImageMark =
  path :: "string option"
  mark_opacity :: int
  scale_percent :: int

record Layout =
  anchor :: string
  offset_x :: int
  offset_y :: int
  rotation_deg :: rat
  allow_drag :: bool

record WatermarkConfig =
  use_text :: bool
  text_style :: TextStyle
  use_image :: bool
  image_mark :: ImageMark
  layout :: Layout
  export :: ExportRule

definition default_ExportRule :: ExportRule where
  "default_ExportRule =
     \<lparr>naming_mode = ''keep'', naming_text = '''', out_format = ''PNG'', jpeg_quality = 90,
      resize_mode = ''none'', resize_value = 100\<rparr>"

definition default_TextStyle :: TextStyle where
  "default_TextStyle =
     \<lparr>wm_text = ''Sample Watermark'', opacity = 40, font_path = None, font_size = 36,
      stroke = True, stroke_width = 2, stroke_color = (0, 0, 0), fill_color = (255, 255, 255),
      shadow = True, shadow_offset = (2, 2)\<rparr>"

definition default_ImageMark :: ImageMark where
  "default_ImageMark = \<lparr>path = None, mark_opacity = 40, scale_percent = 30\<rparr>"

definition default_Layout :: Layout where
  "default_Layout =
     \<lparr>anchor = ''center'', offset_x = 0, offset_y = 0, rotation_deg = 0, allow_drag = True\<rparr>"

definition default_WatermarkConfig :: WatermarkConfig where
  "default_WatermarkConfig =
     \<lparr>use_text = True, text_style = default_TextStyle, use_image = False,
      image_mark = default_ImageMark, layout = default_Layout, export = default_ExportRule\<rparr>"

section \<open>The imaging library\<close>

text \<open>
  Pillow renders, filters and encodes pixels; the program only decides which operations run,
  on what and in which order. An image is therefore the term of the operations that made
  it, over the rasters decoded from files: two images are equal when the same calls
  produced them. Its mode and size are computed from the term as Pillow documents them.
  \<^verbatim>\<open>convert\<close> to the mode an image has, and \<^verbatim>\<open>resize\<close> to the size it has, return a copy,
  which is the same term.

  Of the calls of Pillow, those fail in the model that can fail on well-formed arguments:
  opening a file, loading a font, creating an image of negative size, resizing to a size
  the C core does not take, and saving. How much memory the machine has for an image is
  not modelled.

  A colour is the tuple the program passes: \<open>(r, g, b, a)\<close>.
\<close>

type_synonym rgba = "int \<times> int \<times> int \<times> int"

datatype font = TrueType string int | DefaultFont

datatype image =
    Raster string "int \<times> int" nat
  | NewImage string "int \<times> int" rgba
  | Convert image string
  | Resize image "int \<times> int"
  | DrawText image "int \<times> int" string font rgba int "rgba option"
  | GaussianBlur image int
  | Rotate image rat "int \<times> int"
  | PutAlpha image "int list"
  | Paste image image "int \<times> int"
  | AlphaComposite image image
  | JpegCodec image int int

text \<open>
  \<open>Raster m s k\<close> is the \<open>k\<close>-th raster of mode \<open>m\<close> and size \<open>s\<close>;
  \<open>DrawText im xy text font fill stroke_width stroke_fill\<close> is \<open>im\<close> after
  \<^verbatim>\<open>ImageDraw.Draw(im).text(xy, text, font=, fill=, stroke_width=, stroke_fill=)\<close>;
  \<open>Rotate im deg s\<close> is \<^verbatim>\<open>im.rotate(deg, expand=True, resample=BICUBIC)\<close>, of size \<open>s\<close>;
  \<open>PutAlpha im lut\<close> is \<open>im\<close> with its alpha band mapped through the table \<open>lut\<close>;
  \<open>Paste dst src xy\<close> is \<open>dst\<close> after \<^verbatim>\<open>dst.alpha_composite(src, xy)\<close>;
  \<open>AlphaComposite dst src\<close> is \<^verbatim>\<open>Image.alpha_composite(dst, src)\<close>, \<open>src\<close> over \<open>dst\<close>;
  \<open>JpegCodec im q s\<close> is what a JPEG file of \<open>im\<close> at quality \<open>q\<close> and subsampling \<open>s\<close>
  decodes to.
\<close>

fun im_mode :: "image \<Rightarrow> string" where
  "im_mode (Raster m s k) = m"
| "im_mode (NewImage m s c) = m"
| "im_mode (Convert im m) = m"
| "im_mode (Resize im s) = im_mode im"
| "im_mode (DrawText im xy t f c w sc) = im_mode im"
| "im_mode (GaussianBlur im r) = im_mode im"
| "im_mode (Rotate im d s) = im_mode im"
| "im_mode (PutAlpha im lut) = im_mode im"
| "im_mode (Paste dst src xy) = im_mode dst"
| "im_mode (AlphaComposite dst src) = im_mode dst"
| "im_mode (JpegCodec im q s) = im_mode im"

fun im_size :: "image \<Rightarrow> int \<times> int" where
  "im_size (Raster m s k) = s"
| "im_size (NewImage m s c) = s"
| "im_size (Convert im m) = im_size im"
| "im_size (Resize im s) = s"
| "im_size (DrawText im xy t f c w sc) = im_size im"
| "im_size (GaussianBlur im r) = im_size im"
| "im_size (Rotate im d s) = s"
| "im_size (PutAlpha im lut) = im_size im"
| "im_size (Paste dst src xy) = im_size dst"
| "im_size (AlphaComposite dst src) = im_size dst"
| "im_size (JpegCodec im q s) = im_size im"

definition width :: "image \<Rightarrow> int" where
  "width im = fst (im_size im)"

definition height :: "image \<Rightarrow> int" where
  "height im = snd (im_size im)"

definition convert :: "image \<Rightarrow> string \<Rightarrow> image" where
  "convert im m = (if im_mode im = m then im else Convert im m)"

text \<open>
  \<^verbatim>\<open>im.resize(size, resample)\<close> returns a copy when the size is the one the image has.
  Any other size goes to the C core, which reads each dimension as a C \<^verbatim>\<open>int\<close>
  (\<^verbatim>\<open>OverflowError\<close> outside its range) and refuses a dimension below 1 (\<^verbatim>\<open>ValueError\<close>).
\<close>

definition c_int :: "int \<Rightarrow> bool" where
  "c_int i = (- (2 ^ 31) \<le> i \<and> i < 2 ^ 31)"

definition resize :: "image \<Rightarrow> int \<times> int \<Rightarrow> exn + image" where
  "resize im s =
     (if im_size im = s then Inr im
      else if c_int (fst s) \<and> c_int (snd s)
      then (if fst s < 1 \<or> snd s < 1 then Inl ValueError else Inr (Resize im s))
      else Inl OverflowError)"




text \<open>
  What the program cannot compute is a parameter: the bounding box Pillow measures for a
  text in a font with a stroke width, and the size of the canvas a rotation expands to.
\<close>

record pil =
  textbbox :: "font \<Rightarrow> string \<Rightarrow> int \<Rightarrow> int \<times> int \<times> int \<times> int"
  rotated_size :: "rat \<Rightarrow> int \<times> int \<Rightarrow> int \<times> int"

section \<open>The file system\<close>

text \<open>
  A file system maps the path strings the program uses to what is there; it does not
  identify two spellings of one path. \<open>creatable\<close> says whether a directory or a file may
  be created or overwritten at a path (permissions, free space). An image file holds its
  format and the raster it decodes to.
\<close>

datatype content = ImageFile string image | FontFile | DataFile

datatype entry = Dir | File content

record fs =
  entries :: "string \<Rightarrow> entry option"
  creatable :: "string \<Rightarrow> bool"
  cwd :: string

definition exists_path :: "fs \<Rightarrow> string \<Rightarrow> bool" where
  "exists_path s p = (entries s p \<noteq> None)"

definition Image_open :: "fs \<Rightarrow> string \<Rightarrow> exn + image" where
  "Image_open s p =
     (case entries s p of
        None \<Rightarrow> Inl FileNotFoundError
      | Some Dir \<Rightarrow> Inl IsADirectoryError
      | Some (File (ImageFile fmt im)) \<Rightarrow> Inr im
      | Some (File _) \<Rightarrow> Inl UnidentifiedImageError)"

definition truetype :: "fs \<Rightarrow> string \<Rightarrow> int \<Rightarrow> exn + font" where
  "truetype s p sz =
     (if sz \<le> 0 then Inl ValueError
      else case entries s p of Some (File FontFile) \<Rightarrow> Inr (TrueType p sz) | _ \<Rightarrow> Inl OSError)"

definition makedirs :: "fs \<Rightarrow> string \<Rightarrow> exn + fs" where
  "makedirs s d =
     (case entries s d of
        Some Dir \<Rightarrow> Inr s
      | Some (File f) \<Rightarrow> Inl FileExistsError
      | None \<Rightarrow>
          if d = [] then Inl FileNotFoundError
          else if creatable s d then Inr (s\<lparr>entries := (entries s)(d \<mapsto> Dir)\<rparr>)
          else Inl PermissionError)"

text \<open>
  The modes the JPEG and the PNG encoder of Pillow write; \<^verbatim>\<open>save\<close> raises
  \<^verbatim>\<open>OSError\<close> ("cannot write mode ... as ...") for any other. The PNG encoder wrote
  mode \<open>I\<close> too up to Pillow 12; the list is that of Pillow 13, which no longer does.
\<close>

definition jpeg_modes :: "string list" where
  "jpeg_modes = [''1'', ''L'', ''RGB'', ''RGBX'', ''CMYK'', ''YCbCr'']"

definition png_modes :: "string list" where
  "png_modes = [''1'', ''L'', ''LA'', ''I;16'', ''I;16B'', ''P'', ''RGB'', ''RGBA'']"

text \<open>
  What else an encoder refuses. The JPEG plugin raises \<^verbatim>\<open>ValueError\<close> for an empty image
  before it looks at the mode; the encoder takes the quality as a \<^verbatim>\<open>Py_ssize_t\<close>
  (\<^verbatim>\<open>OverflowError\<close> outside its range, here that of a 64-bit platform), and libjpeg
  encodes no image with a side above 65500 pixels (\<^verbatim>\<open>OSError\<close>). The PNG plugin checks
  the mode first, and the encoder raises \<^verbatim>\<open>SystemError\<close> for an empty image.
\<close>

definition ssize_t :: "int \<Rightarrow> bool" where
  "ssize_t i = (- (2 ^ 63) \<le> i \<and> i < 2 ^ 63)"

definition encoder_error :: "string \<Rightarrow> image \<Rightarrow> (int \<times> int) option \<Rightarrow> exn option" where
  "encoder_error fmt im params =
     (if fmt = ''JPEG'' then
        (if width im < 1 \<or> height im < 1 then Some ValueError
         else if im_mode im \<in> set jpeg_modes then
           (case params of
              None \<Rightarrow> None
            | Some (quality, subsampling) \<Rightarrow>
                if ssize_t quality then
                  (if 65500 < width im \<or> 65500 < height im then Some OSError else None)
                else Some OverflowError)
         else Some OSError)
      else
        (if im_mode im \<in> set png_modes then
           (if width im < 1 \<or> height im < 1 then Some SystemError else None)
         else Some OSError))"

text \<open>
  \<^verbatim>\<open>im.save(path, format=...)\<close> opens the file for writing first and encodes then. When the
  encoder raises, Pillow removes the file if the call created it; a file that was there
  before has been truncated.
\<close>

definition save ::
  "fs \<Rightarrow> image \<Rightarrow> string \<Rightarrow> string \<Rightarrow> (int \<times> int) option \<Rightarrow> (exn + unit) \<times> fs" where
  "save s im p fmt params =
     (if entries s p = Some Dir then (Inl IsADirectoryError, s)
      else if \<not> creatable s p then (Inl PermissionError, s)
      else case encoder_error fmt im params of
        None \<Rightarrow>
          (Inr (),
           s\<lparr>entries := (entries s)(p \<mapsto> File (ImageFile fmt
                (case params of
                   None \<Rightarrow> im
                 | Some (quality, subsampling) \<Rightarrow> JpegCodec im quality subsampling)))\<rparr>)
      | Some e \<Rightarrow>
          (Inl e,
           if entries s p = None then s else s\<lparr>entries := (entries s)(p \<mapsto> File DataFile)\<rparr>))"

section \<open>The pipeline\<close>

subsection \<open>Resize policy\<close>

definition apply_resize :: "image \<Rightarrow> ExportRule \<Rightarrow> exn + image" where
  "apply_resize img rule =
     (if resize_mode rule = ''none'' then Inr img
      else
        let w = width img; h = height img in
        if resize_mode rule = ''by_width'' then
          (let new_w = max 1 (resize_value rule)
           in bind (int_truediv (h * new_w) w) (\<lambda>q.
                resize img (new_w, max 1 (py_int q))))
        else if resize_mode rule = ''by_height'' then
          (let new_h = max 1 (resize_value rule)
           in bind (int_truediv (w * new_h) h) (\<lambda>q.
                resize img (max 1 (py_int q), new_h)))
        else if resize_mode rule = ''by_percent'' then
          bind (int_div_float (max 1 (resize_value rule)) 100) (\<lambda>scale.
          bind (int_mul_float w scale) (\<lambda>x.
          bind (int_mul_float h scale) (\<lambda>y.
            resize img (max 1 (py_int x), max 1 (py_int y)))))
        else Inr img)"

subsection \<open>Text overlay renderer\<close>

text \<open>The font lookup: an exception anywhere in it ends in the built-in font.\<close>

definition load_font :: "fs \<Rightarrow> TextStyle \<Rightarrow> font" where
  "load_font s cfg =
     (let fallback =
            (let project_font = join (cwd s) ''font.ttf''
             in if exists_path s project_font then truetype s project_font (font_size cfg)
                else truetype s ''/System/Library/Fonts/Supplemental/Arial Unicode.ttf''
                       (font_size cfg));
          found =
            (case font_path cfg of
               None \<Rightarrow> fallback
             | Some fp \<Rightarrow>
                 if fp \<noteq> [] \<and> exists_path s fp then truetype s fp (font_size cfg)
                 else fallback)
      in case found of Inl e \<Rightarrow> DefaultFont | Inr f \<Rightarrow> f)"

text \<open>The expression \<^verbatim>\<open>int(255*cfg.opacity/100)\<close>, which the source writes at each colour.\<close>

definition text_alpha :: "int \<Rightarrow> exn + int" where
  "text_alpha op = bind (int_truediv (255 * op) 100) (\<lambda>q. Inr (py_int q))"

definition Image_new :: "string \<Rightarrow> int \<times> int \<Rightarrow> rgba \<Rightarrow> exn + image" where
  "Image_new m s c = (if fst s < 0 \<or> snd s < 0 then Inl ValueError else Inr (NewImage m s c))"

text \<open>
  Lines 145 to 165 of the source. \<^verbatim>\<open>td\<close> draws on the image object created at line 150
  for as long as the function runs. With a shadow, line 158 binds the name
  \<^verbatim>\<open>text_layer\<close> to the new image \<^verbatim>\<open>filter\<close> returns, and the main text, drawn through
  \<^verbatim>\<open>td\<close> after that, goes to the first object. The result is the pair of the object
  \<^verbatim>\<open>td\<close> has drawn on and the image \<^verbatim>\<open>text_layer\<close> names at line 166.
\<close>

definition text_layers :: "pil \<Rightarrow> fs \<Rightarrow> TextStyle \<Rightarrow> exn + image \<times> image" where
  "text_layers lib s cfg =
     (let font = load_font s cfg;
          text = wm_text cfg;
          (x0, y0, x1, y1) = textbbox lib font text (if stroke cfg then stroke_width cfg else 0);
          tw = x1 - x0;
          th = y1 - y0
      in bind (Image_new ''RGBA'' (tw + 20, th + 20) (0, 0, 0, 0)) (\<lambda>layer.
         bind (if shadow cfg then
                 (case shadow_offset cfg of (sx, sy) \<Rightarrow>
                    bind (text_alpha (opacity cfg)) (\<lambda>a.
                      let drawn = DrawText layer (10 + sx, 10 + sy) text font (0, 0, 0, a) 0 None
                      in Inr (drawn, Some (GaussianBlur drawn 1))))
               else Inr (layer, None)) (\<lambda>(drawn, rebound).
         bind (text_alpha (opacity cfg)) (\<lambda>a.
           let (fr, fg, fb) = fill_color cfg;
               (sr, sg, sb) = stroke_color cfg;
               drawn' =
                 (if stroke cfg
                  then DrawText drawn (10, 10) text font (fr, fg, fb, a) (stroke_width cfg)
                         (Some (sr, sg, sb, a))
                  else DrawText drawn (10, 10) text font (fr, fg, fb, a) 0 None)
           in Inr (drawn', case rebound of None \<Rightarrow> drawn' | Some blurred \<Rightarrow> blurred)))))"

definition draw_text_watermark :: "pil \<Rightarrow> fs \<Rightarrow> image \<Rightarrow> TextStyle \<Rightarrow> Layout \<Rightarrow> exn + image" where
  "draw_text_watermark lib s base cfg lay =
     (let img = convert base ''RGBA'';
          overlay = NewImage ''RGBA'' (im_size img) (0, 0, 0, 0)
      in bind (text_layers lib s cfg) (\<lambda>(drawn, text_layer).
           let text_layer' =
                 (if \<bar>rotation_deg lay\<bar> > round_double (1 / 1000)
                  then Rotate text_layer (rotation_deg lay)
                         (rotated_size lib (rotation_deg lay) (im_size text_layer))
                  else text_layer);
               pos = calc_anchor_pos (width img) (height img) (width text_layer')
                       (height text_layer') (anchor lay) (offset_x lay) (offset_y lay)
           in Inr (AlphaComposite img (Paste overlay text_layer' pos))))"

subsection \<open>Image overlay renderer\<close>

fun map_exn :: "('a \<Rightarrow> exn + 'b) \<Rightarrow> 'a list \<Rightarrow> exn + 'b list" where
  "map_exn f [] = Inr []"
| "map_exn f (x # xs) = bind (f x) (\<lambda>y. bind (map_exn f xs) (\<lambda>ys. Inr (y # ys)))"

text \<open>
  \<^verbatim>\<open>alpha.point(lambda a: int(a * (mark.opacity/100)))\<close>: Pillow calls the function on
  \<open>0, \<dots>, 255\<close> and maps the band through the table of the results.
\<close>

definition opacity_table :: "int \<Rightarrow> exn + int list" where
  "opacity_table op =
     bind (int_truediv op 100) (\<lambda>f.
       map_exn (\<lambda>a. bind (int_mul_float a f) (\<lambda>x. Inr (py_int x))) [0..255])"

text \<open>
  The size the mark is scaled to, lines 189 to 192 of the source: its width is the share
  \<^verbatim>\<open>scale_percent\<close> of the width of the base, its height follows from the ratio of the
  new width to the old.
\<close>

definition mark_target_size :: "int \<Rightarrow> int \<Rightarrow> int \<Rightarrow> int \<Rightarrow> exn + int \<times> int" where
  "mark_target_size base_w wm_w wm_h percent =
     bind (int_div_float (max 1 percent) 100) (\<lambda>scale.
     bind (int_mul_float base_w scale) (\<lambda>x.
     let target_w = max 1 (py_int x) in
     bind (int_truediv target_w wm_w) (\<lambda>ratio.
     bind (int_mul_float wm_h ratio) (\<lambda>y.
       Inr (target_w, max 1 (py_int y))))))"

definition draw_image_watermark :: "fs \<Rightarrow> image \<Rightarrow> ImageMark \<Rightarrow> Layout \<Rightarrow> exn + image" where
  "draw_image_watermark s base mark lay =
     (let img = convert base ''RGBA'';
          overlay = NewImage ''RGBA'' (im_size img) (0, 0, 0, 0)
      in case path mark of
           None \<Rightarrow> Inr img
         | Some p \<Rightarrow>
             if p = [] \<or> \<not> exists_path s p then Inr img
             else
               bind (Image_open s p) (\<lambda>opened.
               let wm = convert opened ''RGBA'' in
               bind (mark_target_size (width img) (width wm) (height wm) (scale_percent mark))
                 (\<lambda>target.
               bind (resize wm target) (\<lambda>wm'.
               bind (opacity_table (mark_opacity mark)) (\<lambda>lut.
               let wm'' = PutAlpha wm' lut;
                   pos = calc_anchor_pos (width img) (height img) (width wm'') (height wm'')
                           (anchor lay) (offset_x lay) (offset_y lay)
               in Inr (AlphaComposite img (Paste overlay wm'' pos)))))))"

subsection \<open>Compositor\<close>

definition apply_watermark_once :: "pil \<Rightarrow> fs \<Rightarrow> string \<Rightarrow> WatermarkConfig \<Rightarrow> exn + image" where
  "apply_watermark_once lib s img_path cfg =
     bind (Image_open s img_path) (\<lambda>base.
     bind (if use_text cfg then draw_text_watermark lib s base (text_style cfg) (layout cfg)
           else Inr base) (\<lambda>out.
     if use_image cfg then draw_image_watermark s out (image_mark cfg) (layout cfg)
     else Inr out))"

subsection \<open>Exporter\<close>

definition export_name :: "string \<Rightarrow> ExportRule \<Rightarrow> string" where
  "export_name src_path rule =
     (let base_name = fst (splitext (basename src_path))
      in if naming_mode rule = ''keep'' then base_name
         else if naming_mode rule = ''prefix'' then naming_text rule @ base_name
         else if naming_mode rule = ''suffix'' then base_name @ naming_text rule
         else base_name)"

definition export_image ::
  "fs \<Rightarrow> image \<Rightarrow> string \<Rightarrow> string \<Rightarrow> ExportRule \<Rightarrow> (exn + string) \<times> fs" where
  "export_image s img src_path export_dir rule =
     (case makedirs s export_dir of
        Inl e \<Rightarrow> (Inl e, s)
      | Inr s1 \<Rightarrow>
          let name = export_name src_path rule;
              out_path = join export_dir
                (name @ ''.'' @ (if out_format rule = ''JPEG'' then ''jpg'' else ''png''))
          in case apply_resize img rule of
               Inl e \<Rightarrow> (Inl e, s1)
             | Inr final_img \<Rightarrow>
                 if out_format rule = ''JPEG'' then
                   (let final_img' =
                          (if im_mode final_img = ''RGBA'' \<or> im_mode final_img = ''LA''
                           then convert final_img ''RGB'' else final_img)
                    in case save s1 final_img' out_path ''JPEG'' (Some (jpeg_quality rule, 0)) of
                         (Inl e, s2) \<Rightarrow> (Inl e, s2)
                       | (Inr u, s2) \<Rightarrow> (Inr out_path, s2))
                 else
                   (case save s1 final_img out_path ''PNG'' None of
                      (Inl e, s2) \<Rightarrow> (Inl e, s2)
                    | (Inr u, s2) \<Rightarrow> (Inr out_path, s2)))"

subsection \<open>Batch export\<close>

text \<open>
  What \<^verbatim>\<open>on_export_all\<close> shows or prints, in order: the message boxes, the line printed for
  a failed item, and the values the progress bar is set to.
\<close>

datatype event =
    InfoImportFirst
  | WarnSourceDir string string
  | PrintFailed string exn
  | SetProgress int
  | InfoDone int

definition progress_value :: "int \<Rightarrow> int \<Rightarrow> exn + int" where
  "progress_value i n =
     bind (int_truediv i n) (\<lambda>q. bind (float_mul_int q 100) (\<lambda>x. Inr (py_int x)))"

text \<open>
  The guard of line 585: the directory of the source and the export directory are the same
  after \<^verbatim>\<open>os.path.abspath\<close>.
\<close>

definition in_export_dir :: "fs \<Rightarrow> string \<Rightarrow> string \<Rightarrow> bool" where
  "in_export_dir s export_dir p = (abspath (cwd s) (dirname p) = abspath (cwd s) export_dir)"

text \<open>The body of the \<^verbatim>\<open>try\<close>: the compositor, then the exporter.\<close>

definition try_export ::
  "pil \<Rightarrow> WatermarkConfig \<Rightarrow> string \<Rightarrow> string \<Rightarrow> fs \<Rightarrow> (exn + string) \<times> fs" where
  "try_export lib cfg export_dir p s =
     (case apply_watermark_once lib s p cfg of
        Inl e \<Rightarrow> (Inl e, s)
      | Inr im \<Rightarrow> export_image s im p export_dir (export cfg))"

text \<open>
  One round of the loop for the \<open>i\<close>-th path \<open>p\<close>. A guarded item is warned about and
  skipped by \<^verbatim>\<open>continue\<close>. For any other, \<^verbatim>\<open>except Exception\<close> catches whatever the
  \<^verbatim>\<open>try\<close> raises and prints it; the progress update stands after the \<^verbatim>\<open>try\<close>.
\<close>

definition export_item ::
  "pil \<Rightarrow> WatermarkConfig \<Rightarrow> string \<Rightarrow> int \<Rightarrow> int \<Rightarrow> string \<Rightarrow> fs \<times> event list
     \<Rightarrow> exn + fs \<times> event list" where
  "export_item lib cfg export_dir n i p st =
     (case st of (s, ui) \<Rightarrow>
        if in_export_dir s export_dir p
        then Inr (s, ui @ [WarnSourceDir (basename p) (dirname p)])
        else
          let (r, s') = try_export lib cfg export_dir p s;
              ui' = (case r of Inl e \<Rightarrow> ui @ [PrintFailed p e] | Inr out_path \<Rightarrow> ui)
          in bind (progress_value i n) (\<lambda>v. Inr (s', ui' @ [SetProgress v])))"

fun export_loop ::
  "pil \<Rightarrow> WatermarkConfig \<Rightarrow> string \<Rightarrow> int \<Rightarrow> int \<Rightarrow> string list \<Rightarrow> fs \<times> event list
     \<Rightarrow> exn + fs \<times> event list" where
  "export_loop lib cfg export_dir n i [] st = Inr st"
| "export_loop lib cfg export_dir n i (p # ps) st =
     bind (export_item lib cfg export_dir n i p st)
       (export_loop lib cfg export_dir n (i + 1) ps)"

definition on_export_all ::
  "pil \<Rightarrow> WatermarkConfig \<Rightarrow> string \<Rightarrow> string list \<Rightarrow> fs \<times> event list
     \<Rightarrow> exn + fs \<times> event list" where
  "on_export_all lib cfg export_dir paths st =
     (if paths = [] then Inr (fst st, snd st @ [InfoImportFirst])
      else
        let n = int (length paths)
        in bind (export_loop lib cfg export_dir n 1 paths st) (\<lambda>(s, ui).
             Inr (s, ui @ [InfoDone n])))"

section \<open>Persistence\<close>

text \<open>
  Templates and the session state go through \<^verbatim>\<open>dataclasses.asdict\<close>, \<^verbatim>\<open>json.dump\<close>,
  \<^verbatim>\<open>json.load\<close> and the constructors of the dataclasses, none of which looks at the
  declared field types. Python values are therefore modelled as they are at run time:
  a dataclass instance is its class name and its flds in declaration order, a
  dictionary is its items in insertion order.
\<close>

datatype pyval =
    PNone
  | PBool bool
  | PInt int
  | PFloat rat
  | PStr string
  | PTuple "pyval list"
  | PList "pyval list"
  | PDict "(string \<times> pyval) list"
  | PObj string "(string \<times> pyval) list"

datatype json =
    JNull
  | JBool bool
  | JInt int
  | JFloat rat
  | JStr string
  | JArr "json list"
  | JObj "(string \<times> json) list"

primrec asdict_inner :: "pyval \<Rightarrow> pyval" where
  "asdict_inner PNone = PNone"
| "asdict_inner (PBool b) = PBool b"
| "asdict_inner (PInt i) = PInt i"
| "asdict_inner (PFloat x) = PFloat x"
| "asdict_inner (PStr s) = PStr s"
| "asdict_inner (PTuple xs) = PTuple (map asdict_inner xs)"
| "asdict_inner (PList xs) = PList (map asdict_inner xs)"
| "asdict_inner (PDict kvs) = PDict (map (map_prod id asdict_inner) kvs)"
| "asdict_inner (PObj c flds) = PDict (map (map_prod id asdict_inner) flds)"

definition asdict :: "pyval \<Rightarrow> exn + pyval" where
  "asdict obj = (case obj of PObj c flds \<Rightarrow> Inr (asdict_inner obj) | _ \<Rightarrow> Inl TypeError)"

text \<open>
  \<^verbatim>\<open>json.dump\<close>: a tuple is written as an array, like a list; an object that is no
  dictionary, sequence, string, number, boolean or \<^verbatim>\<open>None\<close> raises \<^verbatim>\<open>TypeError\<close>.
\<close>

fun to_json :: "pyval \<Rightarrow> exn + json"
  and to_json_list :: "pyval list \<Rightarrow> exn + json list"
  and to_json_items :: "(string \<times> pyval) list \<Rightarrow> exn + (string \<times> json) list" where
  "to_json PNone = Inr JNull"
| "to_json (PBool b) = Inr (JBool b)"
| "to_json (PInt i) = Inr (JInt i)"
| "to_json (PFloat x) = Inr (JFloat x)"
| "to_json (PStr s) = Inr (JStr s)"
| "to_json (PTuple xs) = bind (to_json_list xs) (\<lambda>js. Inr (JArr js))"
| "to_json (PList xs) = bind (to_json_list xs) (\<lambda>js. Inr (JArr js))"
| "to_json (PDict kvs) = bind (to_json_items kvs) (\<lambda>js. Inr (JObj js))"
| "to_json (PObj c flds) = Inl TypeError"
| "to_json_list [] = Inr []"
| "to_json_list (x # xs) = bind (to_json x) (\<lambda>j. bind (to_json_list xs) (\<lambda>js. Inr (j # js)))"
| "to_json_items [] = Inr []"
| "to_json_items ((k, v) # kvs) =
     bind (to_json v) (\<lambda>j. bind (to_json_items kvs) (\<lambda>js. Inr ((k, j) # js)))"

text \<open>
  \<^verbatim>\<open>json.load\<close>: an array becomes a list, an object a dictionary in which a repeated key
  keeps its first place and its last value.
\<close>

definition dict_set :: "(string \<times> 'v) list \<Rightarrow> string \<Rightarrow> 'v \<Rightarrow> (string \<times> 'v) list" where
  "dict_set d k v =
     (if k \<in> fst ` set d then map (\<lambda>(k', v'). if k' = k then (k', v) else (k', v')) d
      else d @ [(k, v)])"

definition dict_of_items :: "(string \<times> 'v) list \<Rightarrow> (string \<times> 'v) list" where
  "dict_of_items kvs = foldl (\<lambda>d (k, v). dict_set d k v) [] kvs"

primrec of_json :: "json \<Rightarrow> pyval" where
  "of_json JNull = PNone"
| "of_json (JBool b) = PBool b"
| "of_json (JInt i) = PInt i"
| "of_json (JFloat x) = PFloat x"
| "of_json (JStr s) = PStr s"
| "of_json (JArr js) = PList (map of_json js)"
| "of_json (JObj kvs) = PDict (dict_of_items (map (map_prod id of_json) kvs))"

text \<open>
  The constructor a dataclass generates, called as \<^verbatim>\<open>C(**kwargs)\<close>: \<^verbatim>\<open>kwargs\<close> must be a
  mapping, every key of it the name of a field, and a field without a key takes its
  default. \<open>flds\<close> lists the flds with their defaults.
\<close>

definition dataclass_init :: "string \<Rightarrow> (string \<times> pyval) list \<Rightarrow> pyval \<Rightarrow> exn + pyval" where
  "dataclass_init c flds kwargs =
     (case kwargs of
        PDict kv \<Rightarrow>
          if list_all (\<lambda>k. k \<in> fst ` set flds) (map fst kv)
          then Inr (PObj c (map (\<lambda>(k, dflt). (k, dict_get kv k dflt)) flds))
          else Inl TypeError
      | _ \<Rightarrow> Inl TypeError)"

text \<open>
  The instances of the dataclasses of a configuration. \<open>seq\<close> is the constructor of the
  sequences that hold the colours and the shadow offset: \<open>PTuple\<close> in a configuration the
  program builds.
\<close>

definition TextStyle_obj :: "(pyval list \<Rightarrow> pyval) \<Rightarrow> TextStyle \<Rightarrow> pyval" where
  "TextStyle_obj seq t =
     PObj ''TextStyle''
       [(''text'', PStr (wm_text t)),
        (''opacity'', PInt (opacity t)),
        (''font_path'', case font_path t of None \<Rightarrow> PNone | Some p \<Rightarrow> PStr p),
        (''font_size'', PInt (font_size t)),
        (''stroke'', PBool (stroke t)),
        (''stroke_width'', PInt (stroke_width t)),
        (''stroke_color'', case stroke_color t of (r, g, b) \<Rightarrow> seq [PInt r, PInt g, PInt b]),
        (''fill_color'', case fill_color t of (r, g, b) \<Rightarrow> seq [PInt r, PInt g, PInt b]),
        (''shadow'', PBool (shadow t)),
        (''shadow_offset'', case shadow_offset t of (x, y) \<Rightarrow> seq [PInt x, PInt y])]"

definition ImageMark_obj :: "ImageMark \<Rightarrow> pyval" where
  "ImageMark_obj m =
     PObj ''ImageMark''
       [(''path'', case path m of None \<Rightarrow> PNone | Some p \<Rightarrow> PStr p),
        (''opacity'', PInt (mark_opacity m)),
        (''scale_percent'', PInt (scale_percent m))]"

definition Layout_obj :: "Layout \<Rightarrow> pyval" where
  "Layout_obj l =
     PObj ''Layout''
       [(''anchor'', PStr (anchor l)),
        (''offset_x'', PInt (offset_x l)),
        (''offset_y'', PInt (offset_y l)),
        (''rotation_deg'', PFloat (rotation_deg l)),
        (''allow_drag'', PBool (allow_drag l))]"

definition ExportRule_obj :: "ExportRule \<Rightarrow> pyval" where
  "ExportRule_obj e =
     PObj ''ExportRule''
       [(''mode'', PStr (naming_mode e)),
        (''text'', PStr (naming_text e)),
        (''out_format'', PStr (out_format e)),
        (''jpeg_quality'', PInt (jpeg_quality e)),
        (''resize_mode'', PStr (resize_mode e)),
        (''resize_value'', PInt (resize_value e))]"


definition fields_of :: "pyval \<Rightarrow> (string \<times> pyval) list" where
  "fields_of obj = (case obj of PObj c flds \<Rightarrow> flds | _ \<Rightarrow> [])"

text \<open>
  The body that \<^verbatim>\<open>on_load_template\<close> and \<^verbatim>\<open>load_last_state\<close> share, on the value
  \<^verbatim>\<open>json.load\<close> returned: \<^verbatim>\<open>d.get\<close> raises \<^verbatim>\<open>AttributeError\<close> on a value that is no
  dictionary.
\<close>

definition config_from_dict :: "pyval \<Rightarrow> exn + pyval" where
  "config_from_dict d =
     (case d of
        PDict kv \<Rightarrow>
          bind (dataclass_init ''TextStyle'' (fields_of (TextStyle_obj PTuple default_TextStyle))
                  (dict_get kv ''text'' (PDict []))) (\<lambda>t.
          bind (dataclass_init ''ImageMark'' (fields_of (ImageMark_obj default_ImageMark))
                  (dict_get kv ''image'' (PDict []))) (\<lambda>i.
          bind (dataclass_init ''Layout'' (fields_of (Layout_obj default_Layout))
                  (dict_get kv ''layout'' (PDict []))) (\<lambda>l.
          bind (dataclass_init ''ExportRule'' (fields_of (ExportRule_obj default_ExportRule))
                  (dict_get kv ''export'' (PDict []))) (\<lambda>e.
            Inr (PObj ''WatermarkConfig''
                  [(''use_text'', dict_get kv ''use_text'' (PBool True)),
                   (''text'', t),
                   (''use_image'', dict_get kv ''use_image'' (PBool False)),
                   (''image'', i),
                   (''layout'', l),
                   (''export'', e)])))))
      | _ \<Rightarrow> Inl AttributeError)"

text \<open>
  \<open>serialize\<close> is what \<^verbatim>\<open>on_save_template\<close> and \<^verbatim>\<open>save_last_state\<close> write,
  \<open>deserialize\<close> what \<^verbatim>\<open>on_load_template\<close> and \<^verbatim>\<open>load_last_state\<close> make of a document.
  \<^verbatim>\<open>save_last_state\<close> writes nothing when an exception is raised, and
  \<^verbatim>\<open>load_last_state\<close> returns \<^verbatim>\<open>None\<close> when there is no file or an exception is raised.
\<close>

definition serialize :: "pyval \<Rightarrow> exn + json" where
  "serialize cfg = bind (asdict cfg) to_json"

definition deserialize :: "json \<Rightarrow> exn + pyval" where
  "deserialize doc = config_from_dict (of_json doc)"

definition save_last_state :: "pyval \<Rightarrow> json option" where
  "save_last_state cfg = (case serialize cfg of Inl e \<Rightarrow> None | Inr doc \<Rightarrow> Some doc)"

definition load_last_state :: "json option \<Rightarrow> pyval option" where
  "load_last_state state_file =
     (case state_file of
        None \<Rightarrow> None
      | Some doc \<Rightarrow> (case deserialize doc of Inl e \<Rightarrow> None | Inr cfg \<Rightarrow> Some cfg))"

text \<open>
  Python's \<^verbatim>\<open>==\<close>: numbers and booleans compare by value, a list never equals a tuple,
  dictionaries compare as sets of items, and two instances of a dataclass are equal when
  they are of the same class and their flds are equal in order.
\<close>

definition num_of :: "pyval \<Rightarrow> rat option" where
  "num_of v =
     (case v of PBool b \<Rightarrow> Some (if b then 1 else 0) | PInt i \<Rightarrow> Some (of_int i)
      | PFloat x \<Rightarrow> Some x | _ \<Rightarrow> None)"

fun py_eq :: "pyval \<Rightarrow> pyval \<Rightarrow> bool"
  and py_eq_list :: "pyval list \<Rightarrow> pyval list \<Rightarrow> bool"
  and py_eq_items :: "(string \<times> pyval) list \<Rightarrow> (string \<times> pyval) list \<Rightarrow> bool" where
  "py_eq PNone y = (y = PNone)"
| "py_eq (PBool b) y = (num_of y = Some (if b then 1 else 0))"
| "py_eq (PInt i) y = (num_of y = Some (of_int i))"
| "py_eq (PFloat x) y = (num_of y = Some x)"
| "py_eq (PStr s) y = (y = PStr s)"
| "py_eq (PTuple xs) y = (case y of PTuple ys \<Rightarrow> py_eq_list xs ys | _ \<Rightarrow> False)"
| "py_eq (PList xs) y = (case y of PList ys \<Rightarrow> py_eq_list xs ys | _ \<Rightarrow> False)"
| "py_eq (PDict kvs) y =
     (case y of PDict kvs' \<Rightarrow> length kvs = length kvs' \<and> py_eq_items kvs kvs' | _ \<Rightarrow> False)"
| "py_eq (PObj c flds) y =
     (case y of PObj c' flds' \<Rightarrow> c = c' \<and> py_eq_list (map snd flds) (map snd flds')
      | _ \<Rightarrow> False)"
| "py_eq_list [] ys = (ys = [])"
| "py_eq_list (x # xs) ys = (case ys of [] \<Rightarrow> False | y # ys' \<Rightarrow> py_eq x y \<and> py_eq_list xs ys')"
| "py_eq_items [] kvs' = True"
| "py_eq_items ((k, v) # kvs) kvs' =
     ((case map_of kvs' k of None \<Rightarrow> False | Some v' \<Rightarrow> py_eq v v') \<and> py_eq_items kvs kvs')"

section \<open>Observations and examples\<close>

text \<open>The colours of the text drawn on an image, oldest first: each fill, then its stroke.\<close>

fun drawn_colours :: "image \<Rightarrow> rgba list" where
  "drawn_colours (Raster m s k) = []"
| "drawn_colours (NewImage m s c) = []"
| "drawn_colours (Convert im m) = drawn_colours im"
| "drawn_colours (Resize im s) = drawn_colours im"
| "drawn_colours (DrawText im xy t f c w sc) =
     drawn_colours im @ [c] @ (case sc of None \<Rightarrow> [] | Some c' \<Rightarrow> [c'])"
| "drawn_colours (GaussianBlur im r) = drawn_colours im"
| "drawn_colours (Rotate im d s) = drawn_colours im"
| "drawn_colours (PutAlpha im lut) = drawn_colours im"
| "drawn_colours (Paste dst src xy) = drawn_colours dst @ drawn_colours src"
| "drawn_colours (AlphaComposite dst src) = drawn_colours dst @ drawn_colours src"
| "drawn_colours (JpegCodec im q s) = drawn_colours im"

definition with_alpha :: "int \<times> int \<times> int \<Rightarrow> int \<Rightarrow> rgba" where
  "with_alpha c a = (case c of (r, g, b) \<Rightarrow> (r, g, b, a))"

text \<open>The alpha the specification states: \<open>round(255 * opacity / 100)\<close>.\<close>

definition spec_alpha :: "int \<Rightarrow> int" where
  "spec_alpha op = round (255 * of_int op / 100 :: rat)"

text \<open>
  A library and a file system to evaluate the pipeline on: every text measures 100 by 20
  pixels, a rotation keeps the size, and the file system holds an RGB photo, a chart with a
  palette, an RGBA logo and the export directory with an image exported earlier.
\<close>

definition example_pil :: pil where
  "example_pil = \<lparr>textbbox = (\<lambda>f t w. (0, 0, 100, 20)), rotated_size = (\<lambda>d s. s)\<rparr>"

definition example_fs :: fs where
  "example_fs =
     \<lparr>entries =
        [''/in/photo.jpeg'' \<mapsto> File (ImageFile ''JPEG'' (Raster ''RGB'' (640, 480) 0)),
         ''/in/chart.png'' \<mapsto> File (ImageFile ''PNG'' (Raster ''P'' (64, 64) 1)),
         ''/in/logo.png'' \<mapsto> File (ImageFile ''PNG'' (Raster ''RGBA'' (200, 100) 2)),
         ''/in'' \<mapsto> Dir,
         ''/out'' \<mapsto> Dir,
         ''/out/done.png'' \<mapsto> File (ImageFile ''PNG'' (Raster ''RGB'' (32, 32) 3))],
      creatable = (\<lambda>p. True),
      cwd = ''/work''\<rparr>"




text \<open>The transparent layer of the size of the base that each renderer starts from.\<close>

definition blank_overlay :: "image \<Rightarrow> image" where
  "blank_overlay base = NewImage ''RGBA'' (im_size base) (0, 0, 0, 0)"

text \<open>
  The layer the text renderer pastes, lines 168 and 169 of the source: the text layer,
  rotated when the angle of the layout is above \<^verbatim>\<open>1e-3\<close>.
\<close>

definition rotated :: "pil \<Rightarrow> Layout \<Rightarrow> image \<Rightarrow> image" where
  "rotated lib lay layer =
     (if \<bar>rotation_deg lay\<bar> > round_double (1 / 1000)
      then Rotate layer (rotation_deg lay) (rotated_size lib (rotation_deg lay) (im_size layer))
      else layer)"

text \<open>
  The overlay of a pass: the transparent layer of the size of the base, with \<open>layer\<close>
  pasted where the geometry resolver puts a mark of its size for the anchor and the offsets
  of the layout.
\<close>

definition placed :: "image \<Rightarrow> image \<Rightarrow> Layout \<Rightarrow> image" where
  "placed base layer lay =
     Paste (blank_overlay base) layer
       (calc_anchor_pos (width base) (height base) (width layer) (height layer)
          (anchor lay) (offset_x lay) (offset_y lay))"

text \<open>The image overlay renderer finds a mark: its path is set, not empty, and there.\<close>

definition mark_present :: "fs \<Rightarrow> ImageMark \<Rightarrow> bool" where
  "mark_present s mark =
     (case path mark of None \<Rightarrow> False | Some p \<Rightarrow> p \<noteq> [] \<and> exists_path s p)"

text \<open>The default configuration with the logo as image watermark: both overlays enabled.\<close>

definition example_config :: WatermarkConfig where
  "example_config =
     default_WatermarkConfig
       \<lparr>use_image := True, image_mark := default_ImageMark\<lparr>path := Some ''/in/logo.png''\<rparr>\<rparr>"

text \<open>The warnings and the progress updates among the events of a batch.\<close>

definition is_warning :: "event \<Rightarrow> bool" where
  "is_warning ev = (case ev of WarnSourceDir name dir \<Rightarrow> True | _ \<Rightarrow> False)"

definition is_progress :: "event \<Rightarrow> bool" where
  "is_progress ev = (case ev of SetProgress v \<Rightarrow> True | _ \<Rightarrow> False)"

text \<open>The warning a guarded item gets.\<close>

definition warning_for :: "string \<Rightarrow> event" where
  "warning_for p = WarnSourceDir (basename p) (dirname p)"

text \<open>
  What the specification says a batch does to the file system. To process an image is to
  run the compositor on it and the exporter on the result; a failure of either leaves the
  file system as that call left it. The images of the batch outside the export directory
  are processed in their order; those in the export directory contribute nothing.
\<close>

definition process_image :: "pil \<Rightarrow> WatermarkConfig \<Rightarrow> string \<Rightarrow> string \<Rightarrow> fs \<Rightarrow> fs" where
  "process_image lib cfg export_dir p s =
     (case apply_watermark_once lib s p cfg of
        Inl e \<Rightarrow> s
      | Inr im \<Rightarrow> snd (export_image s im p export_dir (export cfg)))"

definition spec_batch_fs ::
  "pil \<Rightarrow> WatermarkConfig \<Rightarrow> string \<Rightarrow> string list \<Rightarrow> fs \<Rightarrow> fs" where
  "spec_batch_fs lib cfg export_dir paths s =
     fold (process_image lib cfg export_dir)
       (filter (\<lambda>p. \<not> in_export_dir s export_dir p) paths) s"


section \<open>Geometry resolver: properties\<close>

lemma anchor_zones_cases:
  "anchor_zones a = None \<or> a = ''tl'' \<or> a = ''tm'' \<or> a = ''tr'' \<or> a = ''ml'' \<or> a = ''center''
     \<or> a = ''mr'' \<or> a = ''bl'' \<or> a = ''bm'' \<or> a = ''br''"
  by (simp add: anchor_zones_def)

lemma map_of_anchor_mapping_None:
  "anchor_zones a = None \<Longrightarrow> map_of (anchor_mapping W H w h) a = None"
  by (simp add: anchor_zones_def anchor_mapping_def split: if_splits)

lemma middle_base_parity:
  "code_base Middle canvas overlay =
     spec_base Middle canvas overlay + (if even canvas \<and> odd overlay then 1 else 0)"
  by (simp, presburger)

text \<open>
  C1 (as amended). For every canvas size, overlay size, anchor tag and integer offsets the
  resolver returns the anchor's base point plus the raw offsets, unclamped; the near and far
  bases are \<open>0\<close> and \<open>canvas - overlay\<close>, the middle base is
  \<open>canvas div 2 - overlay div 2\<close>, and an unrecognised tag has base \<open>(0, 0)\<close>. Anchor
  \<open>tr\<close> on a 1000x800 canvas with a 100x50 overlay and offsets \<open>(10, 5)\<close> gives
  \<open>(910, 5)\<close>.
\<close>

theorem calc_anchor_pos_resolve:
  "calc_anchor_pos W H w h a ox oy = code_resolve W H w h a ox oy \<and>
   calc_anchor_pos 1000 800 100 50 ''tr'' 10 5 = (910, 5)"
proof
  show "calc_anchor_pos W H w h a ox oy = code_resolve W H w h a ox oy"
    using anchor_zones_cases [of a]
  proof (elim disjE)
    assume "anchor_zones a = None"
    then show ?thesis
      by (simp add: calc_anchor_pos_def code_resolve_def dict_get_def
          map_of_anchor_mapping_None)
  qed (simp_all add: calc_anchor_pos_def code_resolve_def dict_get_def anchor_mapping_def
      anchor_zones_def)
  show "calc_anchor_pos 1000 800 100 50 ''tr'' 10 5 = (910, 5)"
    by (simp add: calc_anchor_pos_def dict_get_def anchor_mapping_def)
qed

text \<open>
  C1 (as stated) fails: with the middle base \<open>(canvas - overlay) div 2\<close> of the
  specification, a 2x2 canvas and a 1x1 overlay anchored at the centre would be placed at
  \<open>(0, 0)\<close>; the code places it at \<open>(1, 1)\<close>.
\<close>

theorem calc_anchor_pos_middle_counterexample:
  "calc_anchor_pos 2 2 1 1 ''center'' 0 0 = (1, 1) \<and>
   spec_resolve 2 2 1 1 ''center'' 0 0 = (0, 0) \<and>
   calc_anchor_pos 2 2 1 1 ''center'' 0 0 \<noteq> spec_resolve 2 2 1 1 ''center'' 0 0"
  by (simp add: calc_anchor_pos_def spec_resolve_def dict_get_def anchor_mapping_def
      anchor_zones_def)

section \<open>Python numbers: properties\<close>

lemma bind_simps [simp]: "bind (Inl e) f = Inl e" "bind (Inr x) f = f x"
  by (simp_all add: bind_def)

subsection \<open>Rounding a quotient of integers\<close>

lemma pow2_pos: "0 < pow2 e"
  by (simp add: pow2_def)

lemma ilog2_lower: assumes "0 < x" shows "pow2 (ilog2 x) \<le> x"
proof (cases "1 \<le> x")
  case True
  then have n: "0 < \<lfloor>x\<rfloor>" by linarith
  from bitlen_bounds [OF n] have "2 ^ nat (bitlen \<lfloor>x\<rfloor> - 1) \<le> \<lfloor>x\<rfloor>" by simp
  then have "(of_int (2 ^ nat (bitlen \<lfloor>x\<rfloor> - 1)) :: rat) \<le> of_int \<lfloor>x\<rfloor>"
    by (simp only: of_int_le_iff)
  also have "\<dots> \<le> x" by simp
  finally have "(2::rat) ^ nat (bitlen \<lfloor>x\<rfloor> - 1) \<le> x" by simp
  moreover have "0 \<le> bitlen \<lfloor>x\<rfloor> - 1" using n bitlen_eq_zero_iff [of "\<lfloor>x\<rfloor>"] bitlen_nonneg [of "\<lfloor>x\<rfloor>"] by linarith
  ultimately show ?thesis using True by (simp add: ilog2_def pow2_def)
next
  case False
  define c where "c = \<lceil>1 / x\<rceil>"
  define j where "j = bitlen (c - 1)"
  from False assms have y: "1 < 1 / x" by simp
  then have c: "0 < c - 1" unfolding c_def by linarith
  have jpos: "0 < j" using c bitlen_eq_zero_iff [of "c - 1"] bitlen_nonneg [of "c - 1"] unfolding j_def by linarith
  from bitlen_bounds [OF c] have "c - 1 < 2 ^ nat j" by (simp add: j_def)
  then have "c \<le> 2 ^ nat j" by simp
  then have "(of_int c :: rat) \<le> of_int (2 ^ nat j)" by (simp only: of_int_le_iff)
  then have "(of_int c :: rat) \<le> 2 ^ nat j" by simp
  moreover have "1 / x \<le> of_int c" unfolding c_def by simp
  ultimately have "1 / x \<le> 2 ^ nat j" by linarith
  then have "1 \<le> 2 ^ nat j * x" using assms by (simp add: field_simps)
  then have "1 / 2 ^ nat j \<le> x" by (simp add: field_simps)
  then show ?thesis using False jpos by (simp add: ilog2_def pow2_def c_def j_def)
qed

lemma ilog2_upper: assumes "0 < x" shows "x < pow2 (ilog2 x + 1)"
proof (cases "1 \<le> x")
  case True
  then have n: "0 < \<lfloor>x\<rfloor>" by linarith
  have b: "0 \<le> bitlen \<lfloor>x\<rfloor> - 1" using n bitlen_eq_zero_iff [of "\<lfloor>x\<rfloor>"] bitlen_nonneg [of "\<lfloor>x\<rfloor>"] by linarith
  from bitlen_bounds [OF n] have "\<lfloor>x\<rfloor> < 2 ^ nat (bitlen \<lfloor>x\<rfloor>)" by simp
  then have "\<lfloor>x\<rfloor> + 1 \<le> 2 ^ nat (bitlen \<lfloor>x\<rfloor>)" by simp
  then have "(of_int (\<lfloor>x\<rfloor> + 1) :: rat) \<le> of_int (2 ^ nat (bitlen \<lfloor>x\<rfloor>))"
    by (simp only: of_int_le_iff)
  moreover have "x < of_int (\<lfloor>x\<rfloor> + 1)" by linarith
  ultimately have "x < 2 ^ nat (bitlen \<lfloor>x\<rfloor>)" by simp
  then show ?thesis using True b by (simp add: ilog2_def pow2_def)
next
  case False
  define c where "c = \<lceil>1 / x\<rceil>"
  define j where "j = bitlen (c - 1)"
  from False assms have y: "1 < 1 / x" by simp
  then have c: "0 < c - 1" unfolding c_def by linarith
  have jpos: "0 < j" using c bitlen_eq_zero_iff [of "c - 1"] bitlen_nonneg [of "c - 1"] unfolding j_def by linarith
  from bitlen_bounds [OF c] have "2 ^ nat (j - 1) \<le> c - 1" by (simp add: j_def)
  then have "(of_int (2 ^ nat (j - 1)) :: rat) \<le> of_int (c - 1)" by (simp only: of_int_le_iff)
  then have "(2::rat) ^ nat (j - 1) \<le> of_int (c - 1)" by simp
  moreover have "of_int (c - 1) < 1 / x" unfolding c_def by linarith
  ultimately have "2 ^ nat (j - 1) < 1 / x" by linarith
  then have lt: "2 ^ nat (j - 1) * x < 1" using assms by (simp add: field_simps)
  show ?thesis
  proof (cases "j = 1")
    case True
    then show ?thesis using False by (simp add: ilog2_def pow2_def c_def [symmetric] j_def [symmetric])
  next
    case F: False
    then have "1 < j" using jpos by simp
    moreover have "nat (j - 1) = nat (- (1 - j))" by simp
    moreover have "x < 1 / 2 ^ nat (j - 1)" using lt by (simp add: field_simps)
    ultimately show ?thesis using False
      by (simp add: ilog2_def pow2_def c_def [symmetric] j_def [symmetric])
  qed
qed

lemma pow2_powi: "pow2 e = 2 powi e"
  by (simp add: pow2_def power_int_def power_one_over inverse_eq_divide)

lemma round_half_even_ge: "of_int z \<le> x \<Longrightarrow> z \<le> round_half_even x"
proof -
  assume "of_int z \<le> x"
  then have "z \<le> \<lfloor>x\<rfloor>" by (simp add: le_floor_iff)
  then show ?thesis by (simp add: round_half_even_def Let_def)
qed

lemma round_half_even_less:
  assumes "x < of_int z - 1 / 2" shows "round_half_even x < z"
proof -
  have f: "of_int \<lfloor>x\<rfloor> \<le> x" by simp
  show ?thesis
  proof (cases "x - of_int \<lfloor>x\<rfloor> < 1 / 2")
    case True
    have "of_int \<lfloor>x\<rfloor> < (of_int z :: rat)" using f assms by linarith
    then have "\<lfloor>x\<rfloor> < z" by (simp only: of_int_less_iff)
    then show ?thesis using True by (simp add: round_half_even_def Let_def)
  next
    case False
    then have "of_int \<lfloor>x\<rfloor> + 1 < (of_int z :: rat)" using assms by linarith
    then have "of_int (\<lfloor>x\<rfloor> + 1) < (of_int z :: rat)" by simp
    then have "\<lfloor>x\<rfloor> + 1 < z" by (simp only: of_int_less_iff)
    then show ?thesis by (simp add: round_half_even_def Let_def)
  qed
qed

lemma round_double_div_floor:
  fixes a b :: int
  assumes a0: "0 \<le> a" and a53: "a < 2 ^ 53" and b: "0 < b"
  shows "\<lfloor>round_double (of_int a / of_int b)\<rfloor> = a div b"
proof (cases "a = 0")
  case True
  then show ?thesis by (simp add: round_double_def)
next
  case False
  define x :: rat where "x = of_int a / of_int b"
  define n where "n = a div b"
  define k where "k = ilog2 x"
  define e where "e = max (k - 52) (- 1074)"
  define S :: int where "S = 2 ^ nat (- e)"
  have apos: "0 < a" using False a0 by simp
  have xpos: "0 < x" using apos b by (simp add: x_def)
  have n_floor: "n = \<lfloor>x\<rfloor>" by (simp add: n_def x_def floor_divide_of_int_eq)
  have n0: "0 \<le> n" using a0 b by (simp add: n_def pos_imp_zdiv_nonneg_iff)
  have n_le: "of_int n \<le> x" by (simp add: n_floor)
  have "a mod b \<le> b - 1" using b pos_mod_bound [of b a] by linarith
  then have "a \<le> n * b + (b - 1)" unfolding n_def
    using div_mult_mod_eq [of a b] by linarith
  then have "(of_int a :: rat) \<le> of_int (n * b + (b - 1))" by (simp only: of_int_le_iff)
  then have A: "(of_int a :: rat) \<le> of_int n * of_int b + of_int b - 1" by simp
  have "x \<le> (of_int n * of_int b + of_int b - 1) / of_int b"
    unfolding x_def using A b by (simp add: divide_right_mono)
  also have "\<dots> = of_int n + 1 - 1 / of_int b" using b by (simp add: field_simps)
  finally have x_le: "x \<le> of_int n + 1 - 1 / of_int b" .
  have L: "2 powi k \<le> x" using ilog2_lower [OF xpos] by (simp add: k_def pow2_powi)
  have U: "x < 2 powi (k + 1)" using ilog2_upper [OF xpos] by (simp add: k_def pow2_powi)
  have "(1::rat) \<le> of_int b" using b by simp
  then have "(of_int a :: rat) * 1 \<le> of_int a * of_int b"
    using a0 by (intro mult_left_mono) simp_all
  then have "x \<le> of_int a" using b by (simp add: x_def field_simps)
  moreover have "(of_int a :: rat) < of_int (2 ^ 53)" using a53 by (simp only: of_int_less_iff)
  then have a_lt: "(of_int a :: rat) < 2 powi 53" by simp
  ultimately have "x < 2 powi 53" by linarith
  with L have "(2::rat) powi k < 2 powi 53" by linarith
  then have k53: "k < 53" by (rule power_int_le_imp_less_exp [rotated]) simp_all
  then have e0: "e \<le> 0" by (simp add: e_def)
  have Spos: "0 < S" by (simp add: S_def)
  have pe: "pow2 e = 1 / of_int S" using e0 by (auto simp: pow2_def S_def)
  have S_powi: "(of_int S :: rat) = 2 powi (- e)"
    using e0 by (simp add: S_def power_int_def)
  have rd: "round_double x = of_int (round_half_even (x * of_int S)) / of_int S"
    using xpos by (simp add: round_double_def k_def [symmetric] e_def [symmetric] pe Let_def)
  have "of_int (n * S) \<le> x * of_int S" using n_le Spos by simp
  then have lower: "n * S \<le> round_half_even (x * of_int S)" by (rule round_half_even_ge)
  have key: "x * of_int S < of_int ((n + 1) * S) - 1 / 2"
  proof (cases "- 1074 \<le> k - 52")
    case True
    then have e: "e = k - 52" by (simp add: e_def)
    have "of_int b * 2 powi k \<le> of_int b * x" using L b by simp
    also have "\<dots> = of_int a" using b by (simp add: x_def)
    also have "\<dots> < 2 powi 53" by (rule a_lt)
    finally have "of_int b * 2 powi k < (2::rat) powi 53" .
    moreover have "(2::rat) powi 53 = 2 powi (53 - k) * 2 powi k"
      by (simp add: power_int_add [symmetric])
    moreover have "0 < (2::rat) powi k" by simp
    ultimately have "of_int b < (2::rat) powi (53 - k)" by (metis mult_less_cancel_right_pos)
    also have "\<dots> = 2 * of_int S" 
      using power_int_add_1' [of "2::rat" "- e"] by (simp add: S_powi e algebra_simps)
    finally have b2S: "of_int b < 2 * (of_int S :: rat)" .
    have "x * of_int S \<le> (of_int n + 1 - 1 / of_int b) * of_int S"
      using x_le Spos by simp
    also have "\<dots> = of_int ((n + 1) * S) - of_int S / of_int b" by (simp add: algebra_simps)
    also have "\<dots> < of_int ((n + 1) * S) - 1 / 2" using b2S b by (simp add: field_simps)
    finally show ?thesis .
  next
    case False
    then have e: "e = - 1074" and k: "k + 1 \<le> - 1" by (simp_all add: e_def)
    have "(2::rat) powi (k + 1) \<le> 2 powi (- 1)" using k by (intro power_int_increasing) simp_all
    with U have xh: "x < 1 / 2" by (simp add: power_int_minus)
    then have "\<lfloor>x\<rfloor> = 0" using xpos by (simp add: floor_unique)
    then have n: "n = 0" by (simp add: n_floor)
    have "x * of_int S < 1 / 2 * of_int S" using xh Spos by simp
    also have "\<dots> \<le> of_int S - 1 / 2" using Spos by (simp add: field_simps)
    finally show ?thesis by (simp add: n)
  qed
  then have upper: "round_half_even (x * of_int S) < (n + 1) * S" by (rule round_half_even_less)
  have "of_int n \<le> round_double x"
  proof -
    have "(of_int (n * S) :: rat) \<le> of_int (round_half_even (x * of_int S))"
      using lower by (simp only: of_int_le_iff)
    then show ?thesis using Spos by (simp add: rd field_simps)
  qed
  moreover have "round_double x < of_int n + 1"
  proof -
    have "(of_int (round_half_even (x * of_int S)) :: rat) < of_int ((n + 1) * S)"
      using upper by (simp only: of_int_less_iff)
    then show ?thesis using Spos by (simp add: rd field_simps)
  qed
  ultimately have "\<lfloor>round_double x\<rfloor> = n" by (simp add: floor_unique)
  then show ?thesis by (simp add: x_def n_def)
qed

lemma ilog2_less_53:
  assumes "0 < r" and "r < 2 ^ 53" shows "ilog2 r < 53"
proof -
  have "2 powi (ilog2 r) \<le> r" using ilog2_lower [OF assms(1)] by (simp add: pow2_powi)
  also have "r < 2 powi 53" using assms(2) by simp
  finally show ?thesis by (rule power_int_le_imp_less_exp [rotated]) simp_all
qed

lemma int_truediv_floor:
  assumes a0: "0 \<le> a" and a53: "a < 2 ^ 53" and b: "0 < b"
  shows "int_truediv a b = Inr (round_double (of_int a / of_int b)) \<and>
         py_int (round_double (of_int a / of_int b)) = a div b"
proof -
  define r where "r = round_double (of_int a / of_int b)"
  have fl: "\<lfloor>r\<rfloor> = a div b" unfolding r_def by (rule round_double_div_floor [OF a0 a53 b])
  have n0: "0 \<le> a div b" using a0 b by (simp add: pos_imp_zdiv_nonneg_iff)
  have "of_int (a div b) \<le> r" using fl by (metis of_int_floor_le)
  moreover have "(0::rat) \<le> of_int (a div b)" using n0 by simp
  ultimately have r0: "0 \<le> r" by linarith
  have "a div b \<le> a div 1" using a0 b by (intro zdiv_mono2) simp_all
  then have "a div b \<le> a" by simp
  then have "a div b + 1 \<le> 2 ^ 53" using a53 by linarith
  then have "(of_int (a div b + 1) :: rat) \<le> of_int (2 ^ 53)" by (simp only: of_int_le_iff)
  moreover have "r < of_int (a div b + 1)" using fl by linarith
  ultimately have "r < 2 ^ 53" by simp
  then have "r \<noteq> 0 \<Longrightarrow> ilog2 \<bar>r\<bar> < 53" using r0 ilog2_less_53 [of r] by simp
  then have "int_truediv a b = Inr r"
    using b by (auto simp: int_truediv_def finite_double_def r_def [symmetric] Let_def)
  moreover have "py_int r = a div b" using r0 fl by (simp add: py_int_def)
  ultimately show ?thesis by (simp add: r_def)
qed

subsection \<open>Bounds of the rounded values\<close>

lemma round_half_even_le:
  assumes "x \<le> of_int z" shows "round_half_even x \<le> z"
proof -
  have nz: "\<lfloor>x\<rfloor> \<le> z" using assms by (simp add: floor_le_iff)
  show ?thesis
  proof (cases "\<lfloor>x\<rfloor> = z")
    case True
    then have "x - of_int \<lfloor>x\<rfloor> \<le> 0" using assms by simp
    then have "x - of_int \<lfloor>x\<rfloor> < 1 / 2" by linarith
    then show ?thesis using True by (simp add: round_half_even_def Let_def)
  next
    case False
    then have "\<lfloor>x\<rfloor> + 1 \<le> z" using nz by linarith
    then show ?thesis using nz by (simp add: round_half_even_def Let_def)
  qed
qed

lemma round_double_bounds:
  assumes x0: "0 \<le> x" and xN: "x \<le> of_int N" and N: "N < 2 ^ 53"
  shows "0 \<le> round_double x \<and> round_double x \<le> of_int N"
proof (cases "x = 0")
  case True
  then show ?thesis using xN by (simp add: round_double_def)
next
  case False
  then have xpos: "0 < x" using x0 by simp
  define k where "k = ilog2 x"
  define e where "e = max (k - 52) (- 1074)"
  define S :: int where "S = 2 ^ nat (- e)"
  have "(of_int N :: rat) < of_int (2 ^ 53)" using N by (simp only: of_int_less_iff)
  then have "x < 2 ^ 53" using xN by simp
  then have "k < 53" unfolding k_def by (rule ilog2_less_53 [OF xpos])
  then have e0: "e \<le> 0" by (simp add: e_def)
  have Spos: "0 < S" by (simp add: S_def)
  have pe: "pow2 e = 1 / of_int S" using e0 by (auto simp: pow2_def S_def)
  have rd: "round_double x = of_int (round_half_even (x * of_int S)) / of_int S"
    using xpos by (simp add: round_double_def k_def [symmetric] e_def [symmetric] pe Let_def)
  have "of_int 0 \<le> x * of_int S" using x0 Spos by simp
  then have "0 \<le> round_half_even (x * of_int S)" by (rule round_half_even_ge)
  then have lo: "0 \<le> round_double x" using Spos by (simp add: rd)
  have "x * of_int S \<le> of_int (N * S)" using xN Spos by simp
  then have "round_half_even (x * of_int S) \<le> N * S" by (rule round_half_even_le)
  then have "(of_int (round_half_even (x * of_int S)) :: rat) \<le> of_int (N * S)"
    by (simp only: of_int_le_iff)
  then have "round_double x \<le> of_int N" using Spos by (simp add: rd field_simps)
  with lo show ?thesis by simp
qed

lemma finite_double_bounded:
  assumes "0 \<le> x" and "x \<le> of_int N" and "N < 2 ^ 53"
  shows "finite_double x = Inr (round_double x)"
proof -
  from round_double_bounds [OF assms] have b: "0 \<le> round_double x" "round_double x \<le> of_int N"
    by simp_all
  have "(of_int N :: rat) < of_int (2 ^ 53)" using assms(3) by (simp only: of_int_less_iff)
  then have "round_double x < 2 ^ 53" using b(2) by simp
  then have "round_double x \<noteq> 0 \<Longrightarrow> ilog2 \<bar>round_double x\<bar> < 53"
    using b(1) ilog2_less_53 [of "round_double x"] by simp
  then show ?thesis by (auto simp: finite_double_def Let_def)
qed

lemma float_of_int_bounded:
  assumes "0 \<le> n" and "n < 2 ^ 53"
  shows "\<exists>x. float_of_int n = Inr x \<and> 0 \<le> x \<and> x \<le> of_int n"
  using finite_double_bounded [of "of_int n" n] round_double_bounds [of "of_int n" n] assms
  by (simp add: float_of_int_def)

lemma int_truediv_bounded:
  assumes "0 \<le> a" and "0 < b" and "a \<le> N * b" and "N < 2 ^ 53"
  shows "\<exists>q. int_truediv a b = Inr q \<and> 0 \<le> q \<and> q \<le> of_int N"
proof -
  have "0 \<le> (of_int a :: rat) / of_int b" using assms(1,2) by simp
  moreover have "(of_int a :: rat) \<le> of_int (N * b)" using assms(3) by (simp only: of_int_le_iff)
  then have "(of_int a :: rat) / of_int b \<le> of_int N" using assms(2) by (simp add: field_simps)
  ultimately show ?thesis
    using finite_double_bounded [of "of_int a / of_int b" N]
      round_double_bounds [of "of_int a / of_int b" N] assms(2,4)
    by (simp add: int_truediv_def)
qed

lemma float_mul_bounded:
  assumes "0 \<le> x" and "x \<le> of_int M" and "0 \<le> y" and "y \<le> of_int N" and "M * N < 2 ^ 53"
  shows "\<exists>z. float_mul x y = Inr z \<and> 0 \<le> z \<and> z \<le> of_int (M * N)"
proof -
  have "0 \<le> x * y" using assms(1,3) by simp
  moreover have "x * y \<le> of_int M * of_int N"
    using assms(1-4) by (intro mult_mono) (auto intro: order_trans)
  then have "x * y \<le> of_int (M * N)" by simp
  ultimately show ?thesis
    using finite_double_bounded [of "x * y" "M * N"] round_double_bounds [of "x * y" "M * N"]
      assms(5)
    by (simp add: float_mul_def)
qed

lemma py_int_bounds: "0 \<le> x \<Longrightarrow> x \<le> of_int N \<Longrightarrow> 0 \<le> py_int x \<and> py_int x \<le> N"
  by (simp add: py_int_def floor_le_iff)

text \<open>The progress value of the \<open>i\<close>-th of \<open>n\<close> items is defined and lies in \<open>[0, 100]\<close>.\<close>

lemma progress_value_bounded:
  assumes "1 \<le> i" and "i \<le> n"
  shows "\<exists>v. progress_value i n = Inr v \<and> 0 \<le> v \<and> v \<le> 100"
proof -
  from int_truediv_bounded [of i n 1] assms obtain q where
    q: "int_truediv i n = Inr q" "0 \<le> q" "q \<le> of_int 1" by auto
  from float_of_int_bounded [of 100] obtain c where
    c: "float_of_int 100 = Inr c" "0 \<le> c" "c \<le> of_int 100" by auto
  from float_mul_bounded [OF q(2,3) c(2,3)] obtain z where
    z: "float_mul q c = Inr z" "0 \<le> z" "z \<le> of_int (1 * 100)" by auto
  from py_int_bounds [OF z(2,3)] q(1) c(1) z(1) show ?thesis
    by (simp add: progress_value_def float_mul_int_def)
qed

text \<open>The opacity table of an opacity in \<open>[0, 100]\<close> is defined.\<close>

lemma map_exn_Inr:
  assumes "\<And>x. x \<in> set xs \<Longrightarrow> \<exists>y. f x = Inr y"
  shows "\<exists>ys. map_exn f xs = Inr ys \<and> length ys = length xs"
  using assms
proof (induction xs)
  case Nil
  then show ?case by simp
next
  case (Cons x xs)
  from Cons.prems obtain y where "f x = Inr y" by auto
  moreover from Cons obtain ys where "map_exn f xs = Inr ys" "length ys = length xs" by auto
  ultimately show ?case by simp
qed

lemma opacity_table_Inr:
  assumes "0 \<le> op" and "op \<le> 100"
  shows "\<exists>lut. opacity_table op = Inr lut \<and> length lut = 256"
proof -
  from int_truediv_bounded [of op 100 1] assms obtain f where
    f: "int_truediv op 100 = Inr f" "0 \<le> f" "f \<le> of_int 1" by auto
  have "\<exists>y. bind (int_mul_float a f) (\<lambda>x. Inr (py_int x)) = Inr y" if "a \<in> set [0..255]" for a
  proof -
    from that have a: "0 \<le> a" "a < 2 ^ 53" by simp_all
    from float_of_int_bounded [OF a] obtain x where
      x: "float_of_int a = Inr x" "0 \<le> x" "x \<le> of_int a" by auto
    have "a * 1 < 2 ^ 53" using a by simp
    from float_mul_bounded [OF x(2,3) f(2,3) this] x(1) show ?thesis
      by (auto simp: int_mul_float_def)
  qed
  from map_exn_Inr [of "[0..255]", OF this] show ?thesis
    using f(1) by (simp add: opacity_table_def)
qed

section \<open>Resize policy: properties\<close>

lemma apply_resize_none: "resize_mode rule = ''none'' \<Longrightarrow> apply_resize img rule = Inr img"
  by (simp add: apply_resize_def)

lemma apply_resize_unrecognized:
  "resize_mode rule \<notin> {''none'', ''by_width'', ''by_height'', ''by_percent''} \<Longrightarrow>
   apply_resize img rule = Inr img"
  by (simp add: apply_resize_def Let_def)

lemma apply_resize_by_width:
  assumes "resize_mode rule = ''by_width''" and "0 < width img" and "0 \<le> height img"
    and "height img * max 1 (resize_value rule) < 2 ^ 53"
  shows "apply_resize img rule =
           resize img (max 1 (resize_value rule),
                       max 1 (height img * max 1 (resize_value rule) div width img))"
proof -
  have "0 \<le> height img * max 1 (resize_value rule)" using assms(3) by simp
  from int_truediv_floor [OF this assms(4) assms(2)] show ?thesis
    using assms(1) by (simp add: apply_resize_def Let_def)
qed

lemma apply_resize_by_height:
  assumes "resize_mode rule = ''by_height''" and "0 < height img" and "0 \<le> width img"
    and "width img * max 1 (resize_value rule) < 2 ^ 53"
  shows "apply_resize img rule =
           resize img (max 1 (width img * max 1 (resize_value rule) div height img),
                       max 1 (resize_value rule))"
proof -
  have "0 \<le> width img * max 1 (resize_value rule)" using assms(3) by simp
  from int_truediv_floor [OF this assms(4) assms(2)] show ?thesis
    using assms(1) by (simp add: apply_resize_def Let_def)
qed

lemma apply_resize_examples:
  "apply_resize (Raster ''RGB'' (200, 100) k)
     (default_ExportRule\<lparr>resize_mode := ''by_percent'', resize_value := 50\<rparr>)
   = Inr (Resize (Raster ''RGB'' (200, 100) k) (100, 50))"
  "apply_resize (Raster ''RGB'' (600, 400) k)
     (default_ExportRule\<lparr>resize_mode := ''by_width'', resize_value := 300\<rparr>)
   = Inr (Resize (Raster ''RGB'' (600, 400) k) (300, 200))"
  by code_simp+

text \<open>
  C4. The claim holds for \<open>none\<close>, \<open>by_width\<close>, \<open>by_height\<close> and an unrecognised mode, and
  at its two examples. For \<open>by_percent\<close> the code multiplies by the float
  \<^verbatim>\<open>max(1, value) / 100.0\<close> and truncates: 29 percent of 100 pixels is computed as
  \<open>28.999999999999996\<close> and gives 28 pixels, not the 29 that scaling by \<open>29/100\<close> gives.
\<close>

theorem apply_resize_by_percent_29:
  "apply_resize (Raster ''RGB'' (100, 100) 0)
     (default_ExportRule\<lparr>resize_mode := ''by_percent'', resize_value := 29\<rparr>)
   = Inr (Resize (Raster ''RGB'' (100, 100) 0) (28, 28)) \<and>
   100 * max 1 29 div 100 = (29::int)"
  by code_simp

section \<open>Text overlay renderer: properties\<close>

lemma text_alpha_floor:
  assumes "0 \<le> op" and "op \<le> 100"
  shows "text_alpha op = Inr (255 * op div 100)"
proof -
  have "0 \<le> 255 * op" using assms(1) by simp
  moreover have "255 * op < 2 ^ 53" using assms(2) by simp
  ultimately show ?thesis
    using int_truediv_floor [of "255 * op" 100] by (simp add: text_alpha_def)
qed

lemma text_layers_eq:
  assumes op: "0 \<le> opacity cfg" "opacity cfg \<le> 100"
    and bbox: "textbbox lib (load_font s cfg) (wm_text cfg)
                 (if stroke cfg then stroke_width cfg else 0) = (x0, y0, x1, y1)"
    and sz: "0 \<le> x1 - x0 + 20" "0 \<le> y1 - y0 + 20"
  shows "\<exists>drawn layer.
           text_layers lib s cfg = Inr (drawn, layer) \<and>
           drawn_colours drawn =
             (if shadow cfg then [(0, 0, 0, 255 * opacity cfg div 100)] else []) @
             [with_alpha (fill_color cfg) (255 * opacity cfg div 100)] @
             (if stroke cfg then [with_alpha (stroke_color cfg) (255 * opacity cfg div 100)]
              else []) \<and>
           drawn_colours layer =
             (if shadow cfg then [(0, 0, 0, 255 * opacity cfg div 100)]
              else drawn_colours drawn) \<and>
           im_mode layer = ''RGBA'' \<and>
           im_size layer = (x1 - x0 + 20, y1 - y0 + 20)"
  using sz
  by (cases "fill_color cfg"; cases "stroke_color cfg"; cases "shadow_offset cfg")
    (simp add: text_layers_def bbox text_alpha_floor [OF op] Image_new_def with_alpha_def
      Let_def)

text \<open>
  C3 (as amended). For every text style with opacity in \<open>[0, 100]\<close> (and a text whose
  measured box leaves a layer of non-negative size) the renderer draws the shadow, if
  enabled, then the fill and, if enabled, the stroke, each with the alpha
  \<open>255 * opacity div 100\<close>: the quotient is rounded down, not to the nearest integer. This
  alpha lies in \<open>[0, 255]\<close>.
\<close>

theorem text_layers_alpha:
  assumes "0 \<le> opacity cfg" and "opacity cfg \<le> 100"
    and "textbbox lib (load_font s cfg) (wm_text cfg)
           (if stroke cfg then stroke_width cfg else 0) = (x0, y0, x1, y1)"
    and "0 \<le> x1 - x0 + 20" and "0 \<le> y1 - y0 + 20"
  shows "\<exists>drawn layer.
           text_layers lib s cfg = Inr (drawn, layer) \<and>
           drawn_colours drawn =
             (if shadow cfg then [(0, 0, 0, 255 * opacity cfg div 100)] else []) @
             [with_alpha (fill_color cfg) (255 * opacity cfg div 100)] @
             (if stroke cfg then [with_alpha (stroke_color cfg) (255 * opacity cfg div 100)]
              else []) \<and>
           0 \<le> 255 * opacity cfg div 100 \<and> 255 * opacity cfg div 100 \<le> 255"
proof -
  from text_layers_eq [OF assms] obtain drawn layer where
    "text_layers lib s cfg = Inr (drawn, layer)"
    "drawn_colours drawn =
       (if shadow cfg then [(0, 0, 0, 255 * opacity cfg div 100)] else []) @
       [with_alpha (fill_color cfg) (255 * opacity cfg div 100)] @
       (if stroke cfg then [with_alpha (stroke_color cfg) (255 * opacity cfg div 100)]
        else [])"
    by blast
  moreover have "0 \<le> 255 * opacity cfg div 100" using assms(1) by simp
  moreover have "255 * opacity cfg div 100 \<le> 255" using assms(2) by simp
  ultimately show ?thesis by blast
qed

theorem text_layers_alpha_witness:
  "\<exists>drawn layer.
     text_layers example_pil example_fs default_TextStyle = Inr (drawn, layer) \<and>
     drawn_colours drawn = [(0, 0, 0, 102), (255, 255, 255, 102), (0, 0, 0, 102)]"
  using text_layers_alpha [of default_TextStyle example_pil example_fs 0 0 100 20]
  by (simp add: default_TextStyle_def example_pil_def with_alpha_def)

text \<open>
  C3 (as stated) fails: at opacity 1 every colour is drawn with alpha 2, and
  \<open>round(255 * 1 / 100) = round(2.55)\<close> is 3.
\<close>

theorem text_alpha_round_counterexample:
  "(case text_layers example_pil example_fs (default_TextStyle\<lparr>opacity := 1\<rparr>) of
      Inl e \<Rightarrow> []
    | Inr (drawn, layer) \<Rightarrow> drawn_colours drawn)
     = [(0, 0, 0, 2), (255, 255, 255, 2), (0, 0, 0, 2)] \<and>
   text_alpha 1 = Inr 2 \<and> spec_alpha 1 = 3"
  by code_simp

text \<open>
  With a shadow, only the blurred shadow is on the layer that is composited: the fill and
  the stroke are drawn on the image \<^verbatim>\<open>td\<close> was made for, which \<^verbatim>\<open>text_layer\<close> no longer
  names after \<^verbatim>\<open>filter\<close>.
\<close>

lemma text_layers_shadow_only:
  assumes "0 \<le> opacity cfg" and "opacity cfg \<le> 100"
    and "textbbox lib (load_font s cfg) (wm_text cfg)
           (if stroke cfg then stroke_width cfg else 0) = (x0, y0, x1, y1)"
    and "0 \<le> x1 - x0 + 20" and "0 \<le> y1 - y0 + 20"
    and "shadow cfg"
  shows "\<exists>drawn layer.
           text_layers lib s cfg = Inr (drawn, layer) \<and>
           drawn_colours layer = [(0, 0, 0, 255 * opacity cfg div 100)]"
  using text_layers_eq [OF assms(1-5)] assms(6) by auto

section \<open>Exporter: the output path\<close>

lemma export_image_Inr:
  assumes "fst (export_image s img src_path export_dir rule) = Inr p"
  shows "\<exists>s1 final_img.
           makedirs s export_dir = Inr s1 \<and> apply_resize img rule = Inr final_img \<and>
           p = join export_dir
                 (export_name src_path rule @ ''.'' @
                  (if out_format rule = ''JPEG'' then ''jpg'' else ''png'')) \<and>
           (if out_format rule = ''JPEG''
            then save s1 (if im_mode final_img = ''RGBA'' \<or> im_mode final_img = ''LA''
                          then convert final_img ''RGB'' else final_img)
                   p ''JPEG'' (Some (jpeg_quality rule, 0))
            else save s1 final_img p ''PNG'' None)
             = (Inr (), snd (export_image s img src_path export_dir rule))"
proof (cases "makedirs s export_dir")
  case (Inl e)
  with assms show ?thesis by (simp add: export_image_def)
next
  case s1: (Inr s1)
  show ?thesis
  proof (cases "apply_resize img rule")
    case (Inl e)
    with assms s1 show ?thesis by (simp add: export_image_def Let_def)
  next
    case final: (Inr final_img)
    show ?thesis
    proof (cases "out_format rule = ''JPEG''")
      case True
      define out_path where "out_path = join export_dir (export_name src_path rule @ ''.jpg'')"
      define im where
        "im = (if im_mode final_img = ''RGBA'' \<or> im_mode final_img = ''LA''
               then convert final_img ''RGB'' else final_img)"
      have ex: "export_image s img src_path export_dir rule =
                  (case save s1 im out_path ''JPEG'' (Some (jpeg_quality rule, 0)) of
                     (Inl e, s2) \<Rightarrow> (Inl e, s2) | (Inr u, s2) \<Rightarrow> (Inr out_path, s2))"
        unfolding out_path_def im_def by (simp add: export_image_def s1 final Let_def True)
      obtain r s2 where sv: "save s1 im out_path ''JPEG'' (Some (jpeg_quality rule, 0)) = (r, s2)"
        by (cases "save s1 im out_path ''JPEG'' (Some (jpeg_quality rule, 0))")
      show ?thesis
      proof (cases r)
        case (Inl e)
        with assms ex sv show ?thesis by simp
      next
        case (Inr u)
        with assms ex sv have "p = out_path"
          and "snd (export_image s img src_path export_dir rule) = s2" by simp_all
        with sv Inr s1 final True show ?thesis
          unfolding out_path_def im_def by simp
      qed
    next
      case False
      define out_path where "out_path = join export_dir (export_name src_path rule @ ''.png'')"
      have ex: "export_image s img src_path export_dir rule =
                  (case save s1 final_img out_path ''PNG'' None of
                     (Inl e, s2) \<Rightarrow> (Inl e, s2) | (Inr u, s2) \<Rightarrow> (Inr out_path, s2))"
        unfolding out_path_def by (simp add: export_image_def s1 final Let_def False)
      obtain r s2 where sv: "save s1 final_img out_path ''PNG'' None = (r, s2)"
        by (cases "save s1 final_img out_path ''PNG'' None")
      show ?thesis
      proof (cases r)
        case (Inl e)
        with assms ex sv show ?thesis by simp
      next
        case (Inr u)
        with assms ex sv have "p = out_path"
          and "snd (export_image s img src_path export_dir rule) = s2" by simp_all
        with sv Inr s1 final False show ?thesis
          unfolding out_path_def by simp
      qed
    qed
  qed
qed

lemma save_Inr:
  assumes "save s im p fmt params = (Inr (), s')"
  shows "\<exists>stored. entries s' p = Some (File (ImageFile fmt stored))"
  using assms by (auto simp: save_def split: if_splits option.splits)

text \<open>
  C5. Whenever the exporter returns, it returns the path of the file it wrote: the target
  directory joined with the base name of the source without its extension, with the text
  fragment of the rule before it (\<open>prefix\<close>) or after it (\<open>suffix\<close>) and unchanged for
  \<open>keep\<close> and any other mode, followed by \<open>.jpg\<close> for the output format \<open>JPEG\<close> and by
  \<open>.png\<close> otherwise.
\<close>

theorem export_image_path:
  assumes "fst (export_image s img src_path export_dir rule) = Inr p"
  shows "p = join export_dir
               ((if naming_mode rule = ''prefix''
                 then naming_text rule @ fst (splitext (basename src_path))
                 else if naming_mode rule = ''suffix''
                 then fst (splitext (basename src_path)) @ naming_text rule
                 else fst (splitext (basename src_path)))
                @ (if out_format rule = ''JPEG'' then ''.jpg'' else ''.png'')) \<and>
         (\<exists>stored. entries (snd (export_image s img src_path export_dir rule)) p
                     = Some (File (ImageFile (if out_format rule = ''JPEG'' then ''JPEG''
                                              else ''PNG'') stored)))"
proof -
  from export_image_Inr [OF assms] obtain s1 final_img where
    p: "p = join export_dir
              (export_name src_path rule @ ''.'' @
               (if out_format rule = ''JPEG'' then ''jpg'' else ''png''))"
    and sv: "(if out_format rule = ''JPEG''
              then save s1 (if im_mode final_img = ''RGBA'' \<or> im_mode final_img = ''LA''
                            then convert final_img ''RGB'' else final_img)
                     p ''JPEG'' (Some (jpeg_quality rule, 0))
              else save s1 final_img p ''PNG'' None)
               = (Inr (), snd (export_image s img src_path export_dir rule))"
    by blast
  have "p = join export_dir
               ((if naming_mode rule = ''prefix''
                 then naming_text rule @ fst (splitext (basename src_path))
                 else if naming_mode rule = ''suffix''
                 then fst (splitext (basename src_path)) @ naming_text rule
                 else fst (splitext (basename src_path)))
                @ (if out_format rule = ''JPEG'' then ''.jpg'' else ''.png''))"
    unfolding p by (simp add: export_name_def Let_def)
  moreover have "\<exists>stored. entries (snd (export_image s img src_path export_dir rule)) p
                     = Some (File (ImageFile (if out_format rule = ''JPEG'' then ''JPEG''
                                              else ''PNG'') stored))"
  proof (cases "out_format rule = ''JPEG''")
    case True
    with sv have "save s1 (if im_mode final_img = ''RGBA'' \<or> im_mode final_img = ''LA''
                          then convert final_img ''RGB'' else final_img)
                   p ''JPEG'' (Some (jpeg_quality rule, 0))
                  = (Inr (), snd (export_image s img src_path export_dir rule))"
      by simp
    from save_Inr [OF this] show ?thesis using True by simp
  next
    case False
    with sv have "save s1 final_img p ''PNG'' None
                  = (Inr (), snd (export_image s img src_path export_dir rule))"
      by simp
    from save_Inr [OF this] show ?thesis using False by simp
  qed
  ultimately show ?thesis by blast
qed

lemma export_image_example:
  "fst (export_image example_fs (Raster ''RGB'' (640, 480) 0) ''/in/photo.jpeg'' ''/out''
          (default_ExportRule\<lparr>naming_mode := ''suffix'', naming_text := ''_wm''\<rparr>))
     = Inr ''/out/photo_wm.png''"
  by code_simp

theorem export_image_path_witness:
  "fst (export_image example_fs (Raster ''RGB'' (640, 480) 0) ''/in/photo.jpeg'' ''/out''
          (default_ExportRule\<lparr>naming_mode := ''suffix'', naming_text := ''_wm''\<rparr>))
     = Inr ''/out/photo_wm.png'' \<and>
   (\<exists>stored.
      entries (snd (export_image example_fs (Raster ''RGB'' (640, 480) 0) ''/in/photo.jpeg''
                      ''/out''
                      (default_ExportRule\<lparr>naming_mode := ''suffix'', naming_text := ''_wm''\<rparr>)))
        ''/out/photo_wm.png'' = Some (File (ImageFile ''PNG'' stored)))"
  using export_image_path [OF export_image_example, THEN conjunct2] export_image_example
  by (simp add: default_ExportRule_def)

section \<open>Compositor: properties\<close>

lemma im_mode_convert [simp]: "im_mode (convert im m) = m"
  by (simp add: convert_def)

lemma im_size_convert [simp]: "im_size (convert im m) = im_size im"
  by (simp add: convert_def)

lemma convert_same: "im_mode im = m \<Longrightarrow> convert im m = im"
  by (simp add: convert_def)


lemma im_size_resize: "resize im sz = Inr out \<Longrightarrow> im_size out = sz"
  by (auto simp: resize_def split: if_splits)

lemma width_convert [simp]: "width (convert im m) = width im"
  by (simp add: width_def)

lemma height_convert [simp]: "height (convert im m) = height im"
  by (simp add: height_def)

lemma draw_text_watermark_Inr:
  assumes "draw_text_watermark lib s base cfg lay = Inr out"
  shows "\<exists>drawn text_layer.
           text_layers lib s cfg = Inr (drawn, text_layer) \<and>
           out = AlphaComposite (convert base ''RGBA'')
                   (placed base (rotated lib lay text_layer) lay)"
proof (cases "text_layers lib s cfg")
  case (Inl e)
  with assms show ?thesis by (simp add: draw_text_watermark_def Let_def)
next
  case (Inr r)
  obtain drawn text_layer where r: "r = (drawn, text_layer)" by (cases r)
  with assms Inr show ?thesis
    by (auto simp: draw_text_watermark_def Let_def blank_overlay_def placed_def rotated_def)
qed

lemma bind_Inr_iff: "bind m f = Inr y \<longleftrightarrow> (\<exists>x. m = Inr x \<and> f x = Inr y)"
  by (cases m) simp_all

lemma draw_image_watermark_Inr:
  assumes "draw_image_watermark s base mark lay = Inr out"
  shows "(if mark_present s mark
          then \<exists>p opened target wm lut.
                 path mark = Some p \<and> Image_open s p = Inr opened \<and>
                 mark_target_size (width base) (width opened) (height opened)
                   (scale_percent mark) = Inr target \<and>
                 resize (convert opened ''RGBA'') target = Inr wm \<and>
                 opacity_table (mark_opacity mark) = Inr lut \<and>
                 out = AlphaComposite (convert base ''RGBA'')
                         (placed base (PutAlpha wm lut) lay)
          else out = convert base ''RGBA'')"
proof (cases "path mark")
  case None
  with assms show ?thesis by (simp add: draw_image_watermark_def mark_present_def Let_def)
next
  case (Some p)
  show ?thesis
  proof (cases "p = [] \<or> \<not> exists_path s p")
    case True
    with assms Some show ?thesis
      by (auto simp: draw_image_watermark_def mark_present_def Let_def)
  next
    case False
    with assms Some have
      "\<exists>opened target wm lut.
         Image_open s p = Inr opened \<and>
         mark_target_size (width base) (width opened) (height opened)
           (scale_percent mark) = Inr target \<and>
         resize (convert opened ''RGBA'') target = Inr wm \<and>
         opacity_table (mark_opacity mark) = Inr lut \<and>
         out = AlphaComposite (convert base ''RGBA'') (placed base (PutAlpha wm lut) lay)"
      by (auto simp: draw_image_watermark_def Let_def blank_overlay_def placed_def bind_Inr_iff)
    with False Some show ?thesis by (auto simp: mark_present_def)
  qed
qed

text \<open>
  C10. With both overlays disabled the compositor returns what opening the base image
  returns: the decoded image itself, in its own mode, or the exception.
\<close>

theorem apply_watermark_once_no_overlay:
  assumes "\<not> use_text cfg" and "\<not> use_image cfg"
  shows "apply_watermark_once lib s img_path cfg = Image_open s img_path"
  using assms by (cases "Image_open s img_path") (simp_all add: apply_watermark_once_def)

theorem apply_watermark_once_no_overlay_witness:
  "apply_watermark_once example_pil example_fs ''/in/chart.png''
     (default_WatermarkConfig\<lparr>use_text := False\<rparr>) = Inr (Raster ''P'' (64, 64) 1) \<and>
   im_mode (Raster ''P'' (64, 64) 1) = ''P''"
  using apply_watermark_once_no_overlay
    [of "default_WatermarkConfig\<lparr>use_text := False\<rparr>" example_pil example_fs
      "''/in/chart.png''"]
  by (simp add: default_WatermarkConfig_def Image_open_def example_fs_def)

text \<open>
  C6 (as amended). The compositor opens the base image and keeps its size. With the text
  overlay enabled, the lower image is what the text renderer returns for the base: the
  base converted to RGBA with, composited over it, the layer made from the text style,
  rotated and placed as the layout says; without it, the lower image is the base. With
  the image overlay enabled, the result is what the image renderer returns for the lower
  image: when the file of the mark is there, the lower image with, composited over it, the
  mark opened from that file, converted to RGBA, scaled to its share of the width of the
  base, its alpha mapped through the opacity table, and placed as the layout says, so that
  the mark is the upper layer and the text is below it; when there is no file, the lower
  image converted to RGBA. The result is RGBA when an overlay is enabled, and the opened
  image itself when none is. The compositor is a function of the file system: it returns
  an image and no file system.
\<close>

theorem apply_watermark_once_layers:
  assumes "Image_open s img_path = Inr base"
    and "apply_watermark_once lib s img_path cfg = Inr out"
  shows "im_size out = im_size base \<and>
         (if use_text cfg \<or> use_image cfg then im_mode out = ''RGBA'' else out = base) \<and>
         (\<exists>lower.
            (if use_text cfg
             then draw_text_watermark lib s base (text_style cfg) (layout cfg) = Inr lower \<and>
                  (\<exists>drawn text_layer.
                     text_layers lib s (text_style cfg) = Inr (drawn, text_layer) \<and>
                     lower = AlphaComposite (convert base ''RGBA'')
                               (placed base (rotated lib (layout cfg) text_layer) (layout cfg)))
             else lower = base) \<and>
            (if use_image cfg
             then draw_image_watermark s lower (image_mark cfg) (layout cfg) = Inr out \<and>
                  (if mark_present s (image_mark cfg)
                   then \<exists>p opened target wm lut.
                          path (image_mark cfg) = Some p \<and> Image_open s p = Inr opened \<and>
                          mark_target_size (width base) (width opened) (height opened)
                            (scale_percent (image_mark cfg)) = Inr target \<and>
                          resize (convert opened ''RGBA'') target = Inr wm \<and>
                          opacity_table (mark_opacity (image_mark cfg)) = Inr lut \<and>
                          out = AlphaComposite (convert lower ''RGBA'')
                                  (placed base (PutAlpha wm lut) (layout cfg))
                   else out = convert lower ''RGBA'')
             else out = lower))"
proof -
  from assms obtain lower where
    lower: "(if use_text cfg then draw_text_watermark lib s base (text_style cfg) (layout cfg)
             else Inr base) = Inr lower"
    and out: "(if use_image cfg then draw_image_watermark s lower (image_mark cfg) (layout cfg)
               else Inr lower) = Inr out"
    by (auto simp: apply_watermark_once_def bind_Inr_iff)
  have l: "if use_text cfg
           then draw_text_watermark lib s base (text_style cfg) (layout cfg) = Inr lower \<and>
                (\<exists>drawn text_layer.
                   text_layers lib s (text_style cfg) = Inr (drawn, text_layer) \<and>
                   lower = AlphaComposite (convert base ''RGBA'')
                             (placed base (rotated lib (layout cfg) text_layer) (layout cfg)))
           else lower = base"
    using lower draw_text_watermark_Inr [of lib s base "text_style cfg" "layout cfg" lower]
    by (cases "use_text cfg") simp_all
  then have lsize: "im_size lower = im_size base"
    by (cases "use_text cfg") auto
  have lmode: "use_text cfg \<Longrightarrow> im_mode lower = ''RGBA''"
    using l by auto
  have pl: "placed lower layer lay = placed base layer lay" for layer lay
    using lsize by (simp add: placed_def blank_overlay_def width_def height_def)
  have lw: "width lower = width base" using lsize by (simp add: width_def)
  have o: "if use_image cfg
           then draw_image_watermark s lower (image_mark cfg) (layout cfg) = Inr out \<and>
                (if mark_present s (image_mark cfg)
                 then \<exists>p opened target wm lut.
                        path (image_mark cfg) = Some p \<and> Image_open s p = Inr opened \<and>
                        mark_target_size (width base) (width opened) (height opened)
                          (scale_percent (image_mark cfg)) = Inr target \<and>
                        resize (convert opened ''RGBA'') target = Inr wm \<and>
                        opacity_table (mark_opacity (image_mark cfg)) = Inr lut \<and>
                        out = AlphaComposite (convert lower ''RGBA'')
                                (placed base (PutAlpha wm lut) (layout cfg))
                 else out = convert lower ''RGBA'')
           else out = lower"
  proof (cases "use_image cfg")
    case True
    with out have d: "draw_image_watermark s lower (image_mark cfg) (layout cfg) = Inr out"
      by simp
    from draw_image_watermark_Inr [OF d] True d show ?thesis
      unfolding pl lw by (simp split: if_splits)
  next
    case False
    with out show ?thesis by simp
  qed
  have osize: "im_size out = im_size base"
  proof (cases "use_image cfg")
    case True
    with o have "if mark_present s (image_mark cfg)
                 then \<exists>wm lut. out = AlphaComposite (convert lower ''RGBA'')
                                       (placed base (PutAlpha wm lut) (layout cfg))
                 else out = convert lower ''RGBA''"
      by (auto split: if_splits)
    then show ?thesis using lsize by (auto split: if_splits)
  next
    case False
    with o lsize show ?thesis by simp
  qed
  have omode: "if use_text cfg \<or> use_image cfg then im_mode out = ''RGBA'' else out = base"
  proof (cases "use_image cfg")
    case True
    with o have "if mark_present s (image_mark cfg)
                 then \<exists>wm lut. out = AlphaComposite (convert lower ''RGBA'')
                                       (placed base (PutAlpha wm lut) (layout cfg))
                 else out = convert lower ''RGBA''"
      by (auto split: if_splits)
    then show ?thesis using True by (auto split: if_splits)
  next
    case False
    with o l lmode show ?thesis by (auto split: if_splits)
  qed
  from osize omode l o show ?thesis by blast
qed

lemma draw_text_watermark_returns:
  assumes "0 \<le> opacity cfg" and "opacity cfg \<le> 100"
    and "textbbox lib (load_font s cfg) (wm_text cfg)
           (if stroke cfg then stroke_width cfg else 0) = (x0, y0, x1, y1)"
    and "0 \<le> x1 - x0 + 20" and "0 \<le> y1 - y0 + 20"
  shows "\<exists>out. draw_text_watermark lib s base cfg lay = Inr out"
proof -
  from text_layers_eq [OF assms] obtain drawn layer where
    "text_layers lib s cfg = Inr (drawn, layer)" by blast
  then show ?thesis by (simp add: draw_text_watermark_def Let_def)
qed

lemma draw_image_watermark_returns:
  assumes "path mark = Some p" and "Image_open s p = Inr opened"
    and "mark_target_size (width base) (width opened) (height opened) (scale_percent mark)
           = Inr target"
    and "resize (convert opened ''RGBA'') target = Inr wm"
    and "0 \<le> mark_opacity mark" and "mark_opacity mark \<le> 100"
  shows "\<exists>out. draw_image_watermark s base mark lay = Inr out"
proof -
  from opacity_table_Inr [OF assms(5,6)] obtain lut where
    "opacity_table (mark_opacity mark) = Inr lut" by blast
  with assms(1-4) show ?thesis
    by (simp add: draw_image_watermark_def Let_def)
qed

lemma mark_target_size_example: "mark_target_size 640 200 100 30 = Inr (192, 96)"
  by code_simp

lemma text_layers_example:
  "text_layers example_pil example_fs default_TextStyle =
     Inr (DrawText
            (DrawText (NewImage ''RGBA'' (120, 40) (0, 0, 0, 0)) (12, 12) ''Sample Watermark''
               DefaultFont (0, 0, 0, 102) 0 None)
            (10, 10) ''Sample Watermark'' DefaultFont (255, 255, 255, 102) 2
            (Some (0, 0, 0, 102)),
          GaussianBlur
            (DrawText (NewImage ''RGBA'' (120, 40) (0, 0, 0, 0)) (12, 12) ''Sample Watermark''
               DefaultFont (0, 0, 0, 102) 0 None) 1)"
  by code_simp

lemma rotation_threshold: "0 < round_double (1 / 1000)"
  by code_simp

lemma placed_example:
  "placed (Raster ''RGB'' (640, 480) 0)
     (rotated example_pil default_Layout
        (GaussianBlur
           (DrawText (NewImage ''RGBA'' (120, 40) (0, 0, 0, 0)) (12, 12) ''Sample Watermark''
              DefaultFont (0, 0, 0, 102) 0 None) 1)) default_Layout
   = Paste (NewImage ''RGBA'' (640, 480) (0, 0, 0, 0))
       (GaussianBlur
          (DrawText (NewImage ''RGBA'' (120, 40) (0, 0, 0, 0)) (12, 12) ''Sample Watermark''
             DefaultFont (0, 0, 0, 102) 0 None) 1) (260, 220)"
  "placed (Raster ''RGB'' (640, 480) 0)
     (PutAlpha (Resize (Raster ''RGBA'' (200, 100) 2) (192, 96)) lut) default_Layout
   = Paste (NewImage ''RGBA'' (640, 480) (0, 0, 0, 0))
       (PutAlpha (Resize (Raster ''RGBA'' (200, 100) 2) (192, 96)) lut) (224, 192)"
  using rotation_threshold
  by (simp_all add: placed_def rotated_def blank_overlay_def default_Layout_def width_def
      height_def calc_anchor_pos_def anchor_mapping_def dict_get_def)

theorem apply_watermark_once_layers_witness:
  "\<exists>lut.
     opacity_table 40 = Inr lut \<and>
     apply_watermark_once example_pil example_fs ''/in/photo.jpeg'' example_config =
       Inr (AlphaComposite
              (AlphaComposite (Convert (Raster ''RGB'' (640, 480) 0) ''RGBA'')
                 (Paste (NewImage ''RGBA'' (640, 480) (0, 0, 0, 0))
                    (GaussianBlur
                       (DrawText (NewImage ''RGBA'' (120, 40) (0, 0, 0, 0)) (12, 12)
                          ''Sample Watermark'' DefaultFont (0, 0, 0, 102) 0 None) 1)
                    (260, 220)))
              (Paste (NewImage ''RGBA'' (640, 480) (0, 0, 0, 0))
                 (PutAlpha (Resize (Raster ''RGBA'' (200, 100) 2) (192, 96)) lut)
                 (224, 192)))"
proof -
  have op: "Image_open example_fs ''/in/photo.jpeg'' = Inr (Raster ''RGB'' (640, 480) 0)"
    by (simp add: Image_open_def example_fs_def)
  have logo: "Image_open example_fs ''/in/logo.png'' = Inr (Raster ''RGBA'' (200, 100) 2)"
    by (simp add: Image_open_def example_fs_def)
  have cv: "convert (Raster ''RGBA'' (200, 100) 2) ''RGBA'' = Raster ''RGBA'' (200, 100) 2"
    "convert (Raster ''RGB'' (640, 480) 0) ''RGBA'' = Convert (Raster ''RGB'' (640, 480) 0) ''RGBA''"
    by (simp_all add: convert_def)
  have rs: "resize (Raster ''RGBA'' (200, 100) 2) (192, 96)
              = Inr (Resize (Raster ''RGBA'' (200, 100) 2) (192, 96))"
    by (simp add: resize_def c_int_def)
  obtain lut where lut: "opacity_table 40 = Inr lut"
    using opacity_table_Inr [of 40] by auto
  have "\<exists>lower. draw_text_watermark example_pil example_fs (Raster ''RGB'' (640, 480) 0)
                  default_TextStyle default_Layout = Inr lower"
    by (simp add: draw_text_watermark_def text_layers_example Let_def)
  then obtain lower where
    lower: "draw_text_watermark example_pil example_fs (Raster ''RGB'' (640, 480) 0)
              default_TextStyle default_Layout = Inr lower" ..
  from draw_text_watermark_Inr [OF this] have lw: "im_size lower = (640, 480)"
    by auto
  have "\<exists>out. draw_image_watermark example_fs lower
                (default_ImageMark\<lparr>path := Some ''/in/logo.png''\<rparr>) default_Layout = Inr out"
    by (rule draw_image_watermark_returns
          [where p = "''/in/logo.png''" and opened = "Raster ''RGBA'' (200, 100) 2"
             and target = "(192, 96)"
             and wm = "Resize (Raster ''RGBA'' (200, 100) 2) (192, 96)"])
      (simp_all add: default_ImageMark_def logo cv rs lw width_def height_def
         mark_target_size_example)
  then obtain out where
    out: "draw_image_watermark example_fs lower
            (default_ImageMark\<lparr>path := Some ''/in/logo.png''\<rparr>) default_Layout = Inr out" ..
  have run: "apply_watermark_once example_pil example_fs ''/in/photo.jpeg'' example_config = Inr out"
    by (simp add: apply_watermark_once_def op example_config_def default_WatermarkConfig_def
        lower out)
  have present: "mark_present example_fs (image_mark example_config)"
    by (simp add: mark_present_def example_config_def default_WatermarkConfig_def
        default_ImageMark_def exists_path_def example_fs_def)
  have cfg: "use_text example_config" "use_image example_config"
    "text_style example_config = default_TextStyle" "layout example_config = default_Layout"
    "path (image_mark example_config) = Some ''/in/logo.png''"
    "scale_percent (image_mark example_config) = 30"
    "mark_opacity (image_mark example_config) = 40"
    by (simp_all add: example_config_def default_WatermarkConfig_def default_ImageMark_def)
  have sz: "width (Raster ''RGB'' (640, 480) 0) = 640"
    "width (Raster ''RGBA'' (200, 100) 2) = 200" "height (Raster ''RGBA'' (200, 100) 2) = 100"
    by (simp_all add: width_def height_def)
  have mode: "im_mode (AlphaComposite (Convert (Raster ''RGB'' (640, 480) 0) ''RGBA'') x)
                = ''RGBA''" for x
    by simp
  from apply_watermark_once_layers [OF op run]
  have "out = AlphaComposite
              (AlphaComposite (Convert (Raster ''RGB'' (640, 480) 0) ''RGBA'')
                 (Paste (NewImage ''RGBA'' (640, 480) (0, 0, 0, 0))
                    (GaussianBlur
                       (DrawText (NewImage ''RGBA'' (120, 40) (0, 0, 0, 0)) (12, 12)
                          ''Sample Watermark'' DefaultFont (0, 0, 0, 102) 0 None) 1)
                    (260, 220)))
              (Paste (NewImage ''RGBA'' (640, 480) (0, 0, 0, 0))
                 (PutAlpha (Resize (Raster ''RGBA'' (200, 100) 2) (192, 96)) lut)
                 (224, 192))"
    using present
    by (auto simp: cfg sz cv text_layers_example logo mark_target_size_example rs lut
        placed_example convert_same [OF mode])
  with run lut show ?thesis by blast
qed

text \<open>
  C6 (as stated) fails where it promises an RGBA image for every configuration: with both
  overlays disabled a JPEG photo comes back as the RGB image it was opened as.
\<close>

theorem apply_watermark_once_rgba_counterexample:
  "apply_watermark_once example_pil example_fs ''/in/photo.jpeg''
     (default_WatermarkConfig\<lparr>use_text := False\<rparr>) = Inr (Raster ''RGB'' (640, 480) 0) \<and>
   im_mode (Raster ''RGB'' (640, 480) 0) \<noteq> ''RGBA''"
  by (simp add: apply_watermark_once_def default_WatermarkConfig_def Image_open_def
      example_fs_def)

section \<open>Exporter: encoding\<close>









section \<open>Batch export: properties\<close>

lemma makedirs_cwd: "makedirs s d = Inr s1 \<Longrightarrow> cwd s1 = cwd s"
  by (auto simp: makedirs_def split: option.splits entry.splits if_splits)

lemma save_cwd: "cwd (snd (save s im p fmt params)) = cwd s"
  by (simp add: save_def split: option.splits)

lemma export_image_cwd: "cwd (snd (export_image s img src_path export_dir rule)) = cwd s"
proof (cases "makedirs s export_dir")
  case (Inl e)
  then show ?thesis by (simp add: export_image_def)
next
  case s1: (Inr s1)
  show ?thesis
  proof (cases "apply_resize img rule")
    case (Inl e)
    with s1 makedirs_cwd [OF s1] show ?thesis by (simp add: export_image_def Let_def)
  next
    case (Inr final_img)
    have *: "cwd (snd (case sv of (Inl e, s2) \<Rightarrow> (Inl e, s2) | (Inr u, s2) \<Rightarrow> (Inr q, s2)))
               = cwd (snd sv)" for sv :: "(exn + unit) \<times> fs" and q :: string
      by (cases sv; cases "fst sv") auto
    show ?thesis
      using s1 Inr makedirs_cwd [OF s1]
      by (simp add: export_image_def Let_def * save_cwd)
  qed
qed

lemma try_export_cwd: "cwd (snd (try_export lib cfg export_dir p s)) = cwd s"
  by (cases "apply_watermark_once lib s p cfg") (simp_all add: try_export_def export_image_cwd)


text \<open>One round of the loop, for a guarded and for any other item.\<close>

lemma export_item_guarded:
  assumes "in_export_dir s export_dir p"
  shows "export_item lib cfg export_dir n i p (s, ui)
           = Inr (s, ui @ [WarnSourceDir (basename p) (dirname p)])"
  using assms by (simp add: export_item_def)

lemma export_item_attempted:
  assumes "\<not> in_export_dir s export_dir p" and "1 \<le> i" and "i \<le> n"
  shows "\<exists>v. 0 \<le> v \<and> v \<le> 100 \<and>
           export_item lib cfg export_dir n i p (s, ui)
             = Inr (snd (try_export lib cfg export_dir p s),
                    ui @ (case fst (try_export lib cfg export_dir p s) of
                            Inl e \<Rightarrow> [PrintFailed p e] | Inr out_path \<Rightarrow> []) @
                         [SetProgress v])"
proof -
  from progress_value_bounded [OF assms(2,3)] obtain v where
    v: "progress_value i n = Inr v" "0 \<le> v" "v \<le> 100" by blast
  obtain r s' where t: "try_export lib cfg export_dir p s = (r, s')"
    by (cases "try_export lib cfg export_dir p s")
  show ?thesis
    using assms(1) v t by (cases r) (auto simp: export_item_def)
qed

lemma export_item_returns:
  assumes "1 \<le> i" and "i \<le> n"
  shows "\<exists>s' ui'. export_item lib cfg export_dir n i p (s, ui) = Inr (s', ui') \<and> cwd s' = cwd s"
proof (cases "in_export_dir s export_dir p")
  case True
  then show ?thesis by (simp add: export_item_guarded)
next
  case False
  from export_item_attempted [OF False assms, of lib cfg ui] obtain v where
    "export_item lib cfg export_dir n i p (s, ui)
       = Inr (snd (try_export lib cfg export_dir p s),
              ui @ (case fst (try_export lib cfg export_dir p s) of
                      Inl e \<Rightarrow> [PrintFailed p e] | Inr out_path \<Rightarrow> []) @
                   [SetProgress v])"
    by blast
  then show ?thesis using try_export_cwd [of lib cfg export_dir p s] by blast
qed

lemma export_loop_returns:
  assumes "1 \<le> i" and "i + int (length ps) \<le> n + 1"
  shows "\<exists>s' ui'. export_loop lib cfg export_dir n i ps (s, ui) = Inr (s', ui')"
  using assms
proof (induction ps arbitrary: i s ui)
  case Nil
  then show ?case by simp
next
  case (Cons p ps)
  from Cons.prems have i: "1 \<le> i" "i \<le> n" by simp_all
  from export_item_returns [OF i] obtain s1 ui1 where
    "export_item lib cfg export_dir n i p (s, ui) = Inr (s1, ui1)" by blast
  moreover from Cons.prems have "1 \<le> i + 1" "i + 1 + int (length ps) \<le> n + 1" by simp_all
  from Cons.IH [OF this] obtain s' ui' where
    "export_loop lib cfg export_dir n (i + 1) ps (s1, ui1) = Inr (s', ui')" by blast
  ultimately show ?case by simp
qed


lemma in_export_dir_cwd: "cwd s' = cwd s \<Longrightarrow> in_export_dir s' d p = in_export_dir s d p"
  by (simp add: in_export_dir_def)

lemma export_loop_events:
  assumes "1 \<le> i" and "i + int (length ps) \<le> n + 1"
    and "export_loop lib cfg export_dir n i ps (s, ui) = Inr (s', ui')"
  shows "filter is_warning ui' =
           filter is_warning ui @ map warning_for (filter (in_export_dir s export_dir) ps) \<and>
         length (filter is_progress ui') =
           length (filter is_progress ui)
             + length (filter (\<lambda>p. \<not> in_export_dir s export_dir p) ps) \<and>
         cwd s' = cwd s \<and>
         (list_all (in_export_dir s export_dir) ps \<longrightarrow> s' = s)"
  using assms
proof (induction ps arbitrary: i s ui)
  case Nil
  then show ?case by simp
next
  case (Cons p ps)
  from Cons.prems have i: "1 \<le> i" "i \<le> n"
    and i': "1 \<le> i + 1" "i + 1 + int (length ps) \<le> n + 1" by simp_all
  from export_item_returns [OF i] obtain s1 ui1 where
    item: "export_item lib cfg export_dir n i p (s, ui) = Inr (s1, ui1)" and c1: "cwd s1 = cwd s"
    by blast
  with Cons.prems(3) have rest: "export_loop lib cfg export_dir n (i + 1) ps (s1, ui1) = Inr (s', ui')"
    by simp
  note IH = Cons.IH [OF i' rest]
  have g: "in_export_dir s1 export_dir = in_export_dir s export_dir"
    using in_export_dir_cwd [OF c1] by auto
  show ?case
  proof (cases "in_export_dir s export_dir p")
    case True
    with item have "s1 = s" "ui1 = ui @ [warning_for p]"
      by (simp_all add: export_item_guarded warning_for_def)
    with IH True show ?thesis by (simp add: is_warning_def is_progress_def warning_for_def)
  next
    case False
    from export_item_attempted [OF False i, of lib cfg ui] item obtain v where
      "ui1 = ui @ (case fst (try_export lib cfg export_dir p s) of
                     Inl e \<Rightarrow> [PrintFailed p e] | Inr out_path \<Rightarrow> []) @ [SetProgress v]"
      by auto
    then have "filter is_warning ui1 = filter is_warning ui"
      and "length (filter is_progress ui1) = length (filter is_progress ui) + 1"
      by (auto simp: is_warning_def is_progress_def split: sum.splits)
    with IH False c1 show ?thesis by (simp add: g)
  qed
qed




text \<open>One round of the loop for an item outside the export directory, call by call.\<close>

lemma export_item_processed:
  assumes "\<not> in_export_dir s export_dir p" and "1 \<le> i" and "i \<le> n"
  shows "\<exists>v. export_item lib cfg export_dir n i p (s, ui) =
           Inr (case apply_watermark_once lib s p cfg of
                  Inl e \<Rightarrow> (s, ui @ [PrintFailed p e, SetProgress v])
                | Inr im \<Rightarrow>
                    (case export_image s im p export_dir (export cfg) of
                       (Inl e, s') \<Rightarrow> (s', ui @ [PrintFailed p e, SetProgress v])
                     | (Inr out_path, s') \<Rightarrow> (s', ui @ [SetProgress v])))"
proof -
  from progress_value_bounded [OF assms(2,3)] obtain v where
    v: "progress_value i n = Inr v" by blast
  show ?thesis
  proof (cases "apply_watermark_once lib s p cfg")
    case (Inl e)
    with assms(1) v show ?thesis by (simp add: export_item_def try_export_def)
  next
    case (Inr im)
    obtain r s' where ex: "export_image s im p export_dir (export cfg) = (r, s')"
      by (cases "export_image s im p export_dir (export cfg)")
    with assms(1) v Inr show ?thesis by (cases r) (simp_all add: export_item_def try_export_def)
  qed
qed

lemma process_image_try_export:
  "process_image lib cfg export_dir p s = snd (try_export lib cfg export_dir p s)"
  by (cases "apply_watermark_once lib s p cfg") (simp_all add: process_image_def try_export_def)

lemma spec_batch_fs_Cons:
  "spec_batch_fs lib cfg export_dir (p # ps) s =
     (if in_export_dir s export_dir p then spec_batch_fs lib cfg export_dir ps s
      else spec_batch_fs lib cfg export_dir ps (process_image lib cfg export_dir p s))"
proof -
  have "in_export_dir (process_image lib cfg export_dir p s) export_dir
          = in_export_dir s export_dir"
    using in_export_dir_cwd [of "process_image lib cfg export_dir p s" s export_dir]
    by (auto simp: process_image_try_export try_export_cwd)
  then show ?thesis by (simp add: spec_batch_fs_def)
qed

lemma spec_batch_fs_guarded:
  "list_all (in_export_dir s export_dir) paths \<Longrightarrow> spec_batch_fs lib cfg export_dir paths s = s"
  by (simp add: spec_batch_fs_def list_all_iff)

lemma export_loop_fs:
  assumes "1 \<le> i" and "i + int (length ps) \<le> n + 1"
    and "export_loop lib cfg export_dir n i ps (s, ui) = Inr (s', ui')"
  shows "s' = spec_batch_fs lib cfg export_dir ps s"
  using assms
proof (induction ps arbitrary: i s ui)
  case Nil
  then show ?case by (simp add: spec_batch_fs_def)
next
  case (Cons p ps)
  from Cons.prems have i: "1 \<le> i" "i \<le> n"
    and i': "1 \<le> i + 1" "i + 1 + int (length ps) \<le> n + 1" by simp_all
  from export_item_returns [OF i] obtain s1 ui1 where
    item: "export_item lib cfg export_dir n i p (s, ui) = Inr (s1, ui1)" by blast
  with Cons.prems(3) have rest: "export_loop lib cfg export_dir n (i + 1) ps (s1, ui1) = Inr (s', ui')"
    by simp
  note IH = Cons.IH [OF i' rest]
  show ?case
  proof (cases "in_export_dir s export_dir p")
    case True
    with item have "s1 = s" by (simp add: export_item_guarded)
    with IH True show ?thesis by (simp add: spec_batch_fs_Cons)
  next
    case False
    from export_item_attempted [OF False i, of lib cfg ui] item
    have "s1 = process_image lib cfg export_dir p s"
      by (auto simp: process_image_try_export)
    with IH False show ?thesis by (simp add: spec_batch_fs_Cons)
  qed
qed

text \<open>
  C9. For every batch, the batch returns, and the file system it leaves is the one in
  which every image outside the export directory (after \<^verbatim>\<open>abspath\<close>) has been processed,
  in order, and no other: an image in the export directory gets a warning and is skipped
  with the file system as it was. The warnings of the batch are those of its guarded
  images, in order, and there is one progress update for each other image. In one round
  of the loop, a guarded image \<open>p\<close> adds its warning and nothing else; any other image
  \<open>q\<close> goes through the compositor and, when that returns, through the exporter, a
  failure of either is printed, and the progress update follows in each case.
\<close>

theorem on_export_all_source_dir_guard:
  "(\<exists>ui'.
      on_export_all lib cfg export_dir paths (s, ui)
        = Inr (spec_batch_fs lib cfg export_dir paths s, ui') \<and>
      filter is_warning ui' =
        filter is_warning ui @ map warning_for (filter (in_export_dir s export_dir) paths) \<and>
      length (filter is_progress ui') =
        length (filter is_progress ui)
          + length (filter (\<lambda>p. \<not> in_export_dir s export_dir p) paths)) \<and>
   (in_export_dir s export_dir p \<longrightarrow>
      export_item lib cfg export_dir n i p (s, ui) = Inr (s, ui @ [warning_for p])) \<and>
   (\<not> in_export_dir s export_dir q \<and> 1 \<le> i \<and> i \<le> n \<longrightarrow>
      (\<exists>v. export_item lib cfg export_dir n i q (s, ui) =
         Inr (case apply_watermark_once lib s q cfg of
                Inl e \<Rightarrow> (s, ui @ [PrintFailed q e, SetProgress v])
              | Inr im \<Rightarrow>
                  (case export_image s im q export_dir (export cfg) of
                     (Inl e, s') \<Rightarrow> (s', ui @ [PrintFailed q e, SetProgress v])
                   | (Inr out_path, s') \<Rightarrow> (s', ui @ [SetProgress v])))))"
proof (intro conjI impI)
  show "\<exists>ui'.
      on_export_all lib cfg export_dir paths (s, ui)
        = Inr (spec_batch_fs lib cfg export_dir paths s, ui') \<and>
      filter is_warning ui' =
        filter is_warning ui @ map warning_for (filter (in_export_dir s export_dir) paths) \<and>
      length (filter is_progress ui') =
        length (filter is_progress ui)
          + length (filter (\<lambda>p. \<not> in_export_dir s export_dir p) paths)"
  proof (cases "paths = []")
    case True
    then show ?thesis
      by (simp add: on_export_all_def is_warning_def is_progress_def spec_batch_fs_def)
  next
    case False
    have b: "(1::int) \<le> 1" "1 + int (length paths) \<le> int (length paths) + 1" by simp_all
    from export_loop_returns [OF b] obtain s1 ui1 where
      loop: "export_loop lib cfg export_dir (int (length paths)) 1 paths (s, ui) = Inr (s1, ui1)"
      by blast
    from export_loop_fs [OF b loop] have "s1 = spec_batch_fs lib cfg export_dir paths s" .
    with export_loop_events [OF b loop] loop False show ?thesis
      by (simp add: on_export_all_def Let_def is_warning_def is_progress_def)
  qed
  show "export_item lib cfg export_dir n i p (s, ui) = Inr (s, ui @ [warning_for p])"
    if "in_export_dir s export_dir p"
    using that by (simp add: export_item_guarded warning_for_def)
  show "\<exists>v. export_item lib cfg export_dir n i q (s, ui) =
         Inr (case apply_watermark_once lib s q cfg of
                Inl e \<Rightarrow> (s, ui @ [PrintFailed q e, SetProgress v])
              | Inr im \<Rightarrow>
                  (case export_image s im q export_dir (export cfg) of
                     (Inl e, s') \<Rightarrow> (s', ui @ [PrintFailed q e, SetProgress v])
                   | (Inr out_path, s') \<Rightarrow> (s', ui @ [SetProgress v])))"
    if "\<not> in_export_dir s export_dir q \<and> 1 \<le> i \<and> i \<le> n"
  proof -
    from that have a: "\<not> in_export_dir s export_dir q" "1 \<le> i" "i \<le> n" by simp_all
    from export_item_processed [OF a] show ?thesis .
  qed
qed

lemma in_export_dir_example:
  "in_export_dir example_fs ''/out'' ''/out/done.png'' \<and>
   \<not> in_export_dir example_fs ''/out'' ''/in/photo.jpeg'' \<and>
   warning_for ''/out/done.png'' = WarnSourceDir ''done.png'' ''/out''"
  by code_simp

lemma photo_marked:
  "apply_watermark_once example_pil example_fs ''/in/photo.jpeg'' default_WatermarkConfig
     = Inr (AlphaComposite (Convert (Raster ''RGB'' (640, 480) 0) ''RGBA'')
              (Paste (NewImage ''RGBA'' (640, 480) (0, 0, 0, 0))
                 (GaussianBlur
                    (DrawText (NewImage ''RGBA'' (120, 40) (0, 0, 0, 0)) (12, 12)
                       ''Sample Watermark'' DefaultFont (0, 0, 0, 102) 0 None) 1)
                 (260, 220)))"
  by code_simp

lemma spec_batch_fs_example:
  "Image_open (spec_batch_fs example_pil default_WatermarkConfig ''/out''
                 [''/out/done.png'', ''/in/photo.jpeg''] example_fs) ''/out/photo.png''
     = Inr (AlphaComposite (Convert (Raster ''RGB'' (640, 480) 0) ''RGBA'')
              (Paste (NewImage ''RGBA'' (640, 480) (0, 0, 0, 0))
                 (GaussianBlur
                    (DrawText (NewImage ''RGBA'' (120, 40) (0, 0, 0, 0)) (12, 12)
                       ''Sample Watermark'' DefaultFont (0, 0, 0, 102) 0 None) 1)
                 (260, 220)))"
  "Image_open (spec_batch_fs example_pil default_WatermarkConfig ''/out''
                 [''/out/done.png'', ''/in/photo.jpeg''] example_fs) ''/out/done.png''
     = Inr (Raster ''RGB'' (32, 32) 3)"
  "Image_open example_fs ''/out/photo.png'' = Inl FileNotFoundError"
  by code_simp+

theorem on_export_all_source_dir_guard_witness:
  "\<exists>s' ui'.
     on_export_all example_pil default_WatermarkConfig ''/out''
       [''/out/done.png'', ''/in/photo.jpeg''] (example_fs, []) = Inr (s', ui') \<and>
     filter is_warning ui' = [WarnSourceDir ''done.png'' ''/out''] \<and>
     length (filter is_progress ui') = 1 \<and>
     Image_open example_fs ''/out/photo.png'' = Inl FileNotFoundError \<and>
     Image_open s' ''/out/photo.png''
       = Inr (AlphaComposite (Convert (Raster ''RGB'' (640, 480) 0) ''RGBA'')
                (Paste (NewImage ''RGBA'' (640, 480) (0, 0, 0, 0))
                   (GaussianBlur
                      (DrawText (NewImage ''RGBA'' (120, 40) (0, 0, 0, 0)) (12, 12)
                         ''Sample Watermark'' DefaultFont (0, 0, 0, 102) 0 None) 1)
                   (260, 220))) \<and>
     Image_open s' ''/out/done.png'' = Inr (Raster ''RGB'' (32, 32) 3) \<and>
     export_item example_pil default_WatermarkConfig ''/out'' 2 1 ''/out/done.png''
       (example_fs, []) = Inr (example_fs, [WarnSourceDir ''done.png'' ''/out'']) \<and>
     (\<exists>v. export_item example_pil default_WatermarkConfig ''/out'' 2 1 ''/in/photo.jpeg''
             (example_fs, [])
           = Inr (snd (export_image example_fs
                         (AlphaComposite (Convert (Raster ''RGB'' (640, 480) 0) ''RGBA'')
                            (Paste (NewImage ''RGBA'' (640, 480) (0, 0, 0, 0))
                               (GaussianBlur
                                  (DrawText (NewImage ''RGBA'' (120, 40) (0, 0, 0, 0)) (12, 12)
                                     ''Sample Watermark'' DefaultFont (0, 0, 0, 102) 0 None) 1)
                               (260, 220)))
                         ''/in/photo.jpeg'' ''/out'' default_ExportRule),
                  [SetProgress v]))"
proof -
  define im where
    "im = AlphaComposite (Convert (Raster ''RGB'' (640, 480) 0) ''RGBA'')
            (Paste (NewImage ''RGBA'' (640, 480) (0, 0, 0, 0))
               (GaussianBlur
                  (DrawText (NewImage ''RGBA'' (120, 40) (0, 0, 0, 0)) (12, 12)
                     ''Sample Watermark'' DefaultFont (0, 0, 0, 102) 0 None) 1)
               (260, 220))"
  have pm: "apply_watermark_once example_pil example_fs ''/in/photo.jpeg''
              default_WatermarkConfig = Inr im"
    unfolding im_def by (rule photo_marked)
  have "fst (export_image example_fs im ''/in/photo.jpeg'' ''/out'' default_ExportRule)
          = Inr ''/out/photo.png''"
    unfolding im_def by code_simp
  then obtain s2 where
    ex: "export_image example_fs im ''/in/photo.jpeg'' ''/out'' default_ExportRule
           = (Inr ''/out/photo.png'', s2)"
    by (cases "export_image example_fs im ''/in/photo.jpeg'' ''/out'' default_ExportRule") auto
  have cfg: "export default_WatermarkConfig = default_ExportRule"
    by (simp add: default_WatermarkConfig_def)
  note g = in_export_dir_example
  note th = on_export_all_source_dir_guard
    [of example_pil default_WatermarkConfig "''/out''" "[''/out/done.png'', ''/in/photo.jpeg'']"
        example_fs "[]" "''/out/done.png''" 2 1 "''/in/photo.jpeg''"]
  from th obtain ui' where
    run: "on_export_all example_pil default_WatermarkConfig ''/out''
            [''/out/done.png'', ''/in/photo.jpeg''] (example_fs, [])
          = Inr (spec_batch_fs example_pil default_WatermarkConfig ''/out''
                   [''/out/done.png'', ''/in/photo.jpeg''] example_fs, ui')"
    and w: "filter is_warning ui' =
              filter is_warning [] @
              map warning_for (filter (in_export_dir example_fs ''/out'')
                                 [''/out/done.png'', ''/in/photo.jpeg''])"
    and pr: "length (filter is_progress ui') =
               length (filter is_progress []) +
               length (filter (\<lambda>p. \<not> in_export_dir example_fs ''/out'' p)
                         [''/out/done.png'', ''/in/photo.jpeg''])"
    by blast
  from w g have w': "filter is_warning ui' = [WarnSourceDir ''done.png'' ''/out'']" by simp
  from pr g have pr': "length (filter is_progress ui') = 1" by simp
  from th g have item1:
    "export_item example_pil default_WatermarkConfig ''/out'' 2 1 ''/out/done.png''
       (example_fs, []) = Inr (example_fs, [WarnSourceDir ''done.png'' ''/out''])"
    by simp
  from th g obtain v where
    "export_item example_pil default_WatermarkConfig ''/out'' 2 1 ''/in/photo.jpeg''
       (example_fs, [])
     = Inr (case apply_watermark_once example_pil example_fs ''/in/photo.jpeg''
                   default_WatermarkConfig of
              Inl e \<Rightarrow> (example_fs, [] @ [PrintFailed ''/in/photo.jpeg'' e, SetProgress v])
            | Inr im \<Rightarrow>
                (case export_image example_fs im ''/in/photo.jpeg'' ''/out''
                        (export default_WatermarkConfig) of
                   (Inl e, s') \<Rightarrow> (s', [] @ [PrintFailed ''/in/photo.jpeg'' e, SetProgress v])
                 | (Inr out_path, s') \<Rightarrow> (s', [] @ [SetProgress v])))"
    by auto
  then have item2:
    "export_item example_pil default_WatermarkConfig ''/out'' 2 1 ''/in/photo.jpeg''
       (example_fs, [])
     = Inr (snd (export_image example_fs im ''/in/photo.jpeg'' ''/out'' default_ExportRule),
            [SetProgress v])"
    by (simp add: pm cfg ex)
  from run w' pr' item1 item2 spec_batch_fs_example show ?thesis
    unfolding im_def by blast
qed

section \<open>Persistence: properties\<close>

lemma dict_of_items_Nil [simp]: "dict_of_items [] = []"
  by (simp add: dict_of_items_def)














end
